theory Spec2Isabelle
  imports Main "HOL-Library.Word" "HOL-Library.Sublist"
begin

unbundle bit_operations_syntax

section \<open>Errors\<close>

text \<open>
  The sentinel errors of the package (\<open>ErrInvalidTemplate\<close>, \<open>ErrNilArgument\<close>, ...).
  The Go code wraps them with \<open>%w\<close>, so a caller identifies an error by its sentinel; the
  model keeps the sentinel only. \<open>ErrRegexpSyntax\<close> stands for the error returned by
  \<open>regexp.Compile\<close>, and \<open>Panic\<close> for a run-time panic (nil dereference, index out of
  range).
\<close>

datatype error =
    ErrInvalidTemplate
  | ErrInvalidValue
  | ErrMissingValue
  | ErrDifferentPattern
  | ErrRepeatedWildcardName
  | ErrAnotherWildcardName
  | ErrRegexpSyntax
  | ErrDifferentTemplates
  | ErrDifferentValueNames
  | ErrDifferentNames
  | ErrNilArgument
  | ErrConflictingHost
  | ErrConflictingPath
  | ErrConflictingPathSegment
  | ErrConflictingSecurity
  | ErrConflictingTrailingSlash
  | ErrConflictingConfig
  | ErrEmptyHostTemplate
  | ErrEmptyPathTemplate
  | ErrEmptyPathSegmentTemplate
  | ErrWildcardHostTemplate
  | ErrUnwantedPathTemplate
  | ErrNonRouterParent
  | ErrUnnamedResource
  | ErrDuplicateHostTemplate
  | ErrDuplicateResourceTemplate
  | ErrDuplicateNameInTheURL
  | ErrDuplicateValueNameInTheURL
  | ErrDuplicateNameAmongSiblings
  | ErrRegisteredResource
  | Panic

section \<open>String helpers of the Go standard library\<close>

text \<open>Strings are byte sequences, as Go's \<open>string\<close> is; indices count bytes.\<close>

definition TrimPrefix :: "string \<Rightarrow> string \<Rightarrow> string" where
  "TrimPrefix s p = (if prefix p s then drop (length p) s else s)"

definition HasPrefix :: "string \<Rightarrow> string \<Rightarrow> bool" where
  "HasPrefix s p = prefix p s"

definition HasSuffix :: "string \<Rightarrow> string \<Rightarrow> bool" where
  "HasSuffix s p = suffix p s"

text \<open>\<open>strings.IndexByte\<close>: the index of the first occurrence, or \<open>-1\<close>.\<close>

fun IndexByte :: "string \<Rightarrow> char \<Rightarrow> int" where
  "IndexByte [] c = -1"
| "IndexByte (x # xs) c =
     (if x = c then 0 else (let i = IndexByte xs c in if i < 0 then -1 else i + 1))"

section \<open>Splitting a URL template (utils.go)\<close>

text \<open>
  \<open>splitHostAndPath\<close> returns its five named results
  \<open>(hostTmplStr, pathTmplStr, secure, tslash, err)\<close>; \<open>None\<close> is the nil error.
\<close>

definition splitHostAndPath :: "string \<Rightarrow> string \<times> string \<times> bool \<times> bool \<times> error option" where
  "splitHostAndPath urlTmplStr0 =
    (if urlTmplStr0 = [] then ([], [], False, False, Some ErrInvalidTemplate)
     else
       let lurlTmplStr = length urlTmplStr0;
           u1 = TrimPrefix urlTmplStr0 ''https://'';
           u2 = (if length u1 < lurlTmplStr then u1 else TrimPrefix u1 ''http://'');
           secure = (length u1 < lurlTmplStr);
           absolute = (length u1 < lurlTmplStr \<or> length u2 < lurlTmplStr);
           idx = IndexByte u2 (CHR ''/'')
       in
         if absolute \<and> idx < 0 then (u2, [], secure, False, None)
         else
           let hostTmplStr = (if absolute then take (nat idx) u2 else []);
               pathTmplStr = (if absolute then drop (nat idx) u2 else u2)
           in
             if hostTmplStr \<noteq> [] \<and> pathTmplStr = ''/'' then
               (hostTmplStr, [], secure, True, None)
             else if hostTmplStr = [] \<and> pathTmplStr = [] then
               (hostTmplStr, pathTmplStr, False, False, Some ErrInvalidTemplate)
             else
               let lastIdx = int (length pathTmplStr) - 1 in
                 if lastIdx > 0 \<and> pathTmplStr ! nat lastIdx = CHR ''/'' then
                   (hostTmplStr, take (nat lastIdx) pathTmplStr, secure, True, None)
                 else (hostTmplStr, pathTmplStr, secure, False, None))"

definition sp_host :: "string \<times> string \<times> bool \<times> bool \<times> error option \<Rightarrow> string" where
  "sp_host r = fst r"

definition sp_path :: "string \<times> string \<times> bool \<times> bool \<times> error option \<Rightarrow> string" where
  "sp_path r = fst (snd r)"

definition sp_secure :: "string \<times> string \<times> bool \<times> bool \<times> error option \<Rightarrow> bool" where
  "sp_secure r = fst (snd (snd r))"

definition sp_tslash :: "string \<times> string \<times> bool \<times> bool \<times> error option \<Rightarrow> bool" where
  "sp_tslash r = fst (snd (snd (snd r)))"

definition sp_err :: "string \<times> string \<times> bool \<times> bool \<times> error option \<Rightarrow> error option" where
  "sp_err r = snd (snd (snd (snd r)))"


section \<open>Templates: data (template.go)\<close>

text \<open>The backslash, which an Isabelle string literal cannot hold.\<close>

abbreviation bsl :: char where
  "bsl \<equiv> CHR 0x5C"

datatype Similarity = Different | DifferentValueNames | DifferentNames | TheSame

definition Err :: "Similarity \<Rightarrow> error option" where
  "Err s = (case s of
      Different \<Rightarrow> Some ErrDifferentTemplates
    | DifferentValueNames \<Rightarrow> Some ErrDifferentValueNames
    | DifferentNames \<Rightarrow> Some ErrDifferentNames
    | TheSame \<Rightarrow> None)"

text \<open>
  The package \<open>regexp\<close> of the Go standard library is not code of this repository. The
  model takes the engine as a parameter: \<open>Compile\<close> tells whether a source compiles, and
  \<open>FindAllStringIndex rx re s\<close> is the list \<open>[(start, end), ...]\<close> of the successive
  matches of the source \<open>re\<close> in \<open>s\<close> (empty when there is none). A compiled
  \<open>*regexp.Regexp\<close> is represented by its source, the string \<open>re.String()\<close> returns, and
  a nil \<open>*regexp.Regexp\<close> by \<open>None\<close>.
\<close>

record regexp =
  Compile :: "string \<Rightarrow> bool"
  FindAllStringIndex :: "string \<Rightarrow> string \<Rightarrow> (nat \<times> nat) list"

text \<open>\<open>FindStringIndex\<close> is the leftmost match, that is the first of all matches.\<close>

definition FindStringIndex :: "regexp \<Rightarrow> string \<Rightarrow> string \<Rightarrow> (nat \<times> nat) option" where
  "FindStringIndex rx re s =
     (case FindAllStringIndex rx re s of [] \<Rightarrow> None | m # _ \<Rightarrow> Some m)"

record ValuePattern =
  vp_name :: string
  vp_re :: "string option"

text \<open>
  A \<open>_TemplateSlice\<close> has both fields; the parser fills exactly one of them. The
  \<open>*_ValuePattern\<close> pointer is \<open>None\<close> when nil. Value patterns are never mutated after
  they are shared between slices, so the slices hold them by value.
\<close>

record TemplateSlice =
  staticStr :: string
  valuePattern :: "ValuePattern option"

record Template =
  name :: string
  slices :: "TemplateSlice list"
  wildCardIdx :: int

definition staticSliceOf :: "string \<Rightarrow> TemplateSlice" where
  "staticSliceOf s = \<lparr>staticStr = s, valuePattern = None\<rparr>"

definition dynamicSliceOf :: "ValuePattern \<Rightarrow> TemplateSlice" where
  "dynamicSliceOf vp = \<lparr>staticStr = [], valuePattern = Some vp\<rparr>"

definition IsStatic :: "Template \<Rightarrow> bool" where
  "IsStatic t = (length (slices t) = 1 \<and> staticStr (slices t ! 0) \<noteq> [])"

definition IsWildcard :: "Template \<Rightarrow> bool" where
  "IsWildcard t =
     (length (slices t) = 1 \<and>
      (case valuePattern (slices t ! 0) of
         None \<Rightarrow> False
       | Some vp \<Rightarrow> vp_re vp = None))"

section \<open>Templates: rendering (\<open>Content\<close>, \<open>String\<close>)\<close>

text \<open>
  The loop of \<open>Content\<close> over a static slice: a backslash is written before every curly
  brace.
\<close>

fun writeStatic :: "string \<Rightarrow> string" where
  "writeStatic [] = []"
| "writeStatic (ch # cs) =
     (if ch = CHR ''{'' \<or> ch = CHR ''}'' then bsl # ch # writeStatic cs
      else ch # writeStatic cs)"

text \<open>
  The loop \<open>for len(str) > 0\<close> of \<open>Content\<close> and \<open>String\<close> over a name: every colon is
  written as backslash and colon.
\<close>

function writeName :: "string \<Rightarrow> string" where
  "writeName str =
     (if str = [] then []
      else
        let idx = IndexByte str (CHR '':'') in
          if idx < 0 then str
          else take (nat idx) str @ [bsl, CHR '':''] @ writeName (drop (nat idx + 1) str))"
  by pat_completeness auto
termination
  by (relation "measure length") auto

text \<open>
  The loop of \<open>Content\<close> over the slices; \<open>vns\<close> holds the value names whose pattern has
  been written. A slice with no static string and a nil value pattern makes the Go code
  panic.
\<close>

fun writeSlices :: "TemplateSlice list \<Rightarrow> string list \<Rightarrow> error + string" where
  "writeSlices [] vns = Inr []"
| "writeSlices (slc # rest) vns =
     (if staticStr slc \<noteq> [] then
        (case writeSlices rest vns of
           Inl e \<Rightarrow> Inl e
         | Inr s \<Rightarrow> Inr (writeStatic (staticStr slc) @ s))
      else
        (case valuePattern slc of
           None \<Rightarrow> Inl Panic
         | Some vp \<Rightarrow>
             (case vp_re vp of
                Some re \<Rightarrow>
                  (if vp_name vp \<notin> set vns then
                     (case writeSlices rest (vp_name vp # vns) of
                        Inl e \<Rightarrow> Inl e
                      | Inr s \<Rightarrow>
                          Inr ([CHR ''{''] @ writeName (vp_name vp) @ [CHR '':''] @ re @ [CHR ''}''] @ s))
                   else
                     (case writeSlices rest vns of
                        Inl e \<Rightarrow> Inl e
                      | Inr s \<Rightarrow> Inr ([CHR ''{''] @ writeName (vp_name vp) @ [CHR ''}''] @ s)))
              | None \<Rightarrow>
                  (case writeSlices rest vns of
                     Inl e \<Rightarrow> Inl e
                   | Inr s \<Rightarrow> Inr ([CHR ''{''] @ writeName (vp_name vp) @ [CHR ''}''] @ s)))))"

definition Content :: "Template \<Rightarrow> error + string" where
  "Content t =
     (let pre =
        (if name t = [] \<and> slices t \<noteq> [] \<and> staticStr (slices t ! 0) \<noteq> [] \<and>
            staticStr (slices t ! 0) ! 0 = CHR ''$''
         then [bsl] else [])
      in case writeSlices (slices t) [] of
           Inl e \<Rightarrow> Inl e
         | Inr s \<Rightarrow> Inr (pre @ s))"

definition String :: "Template \<Rightarrow> error + string" where
  "String t =
     (let pre = (if name t \<noteq> [] then [CHR ''$''] @ writeName (name t) @ [CHR '':''] else [])
      in case Content t of
           Inl e \<Rightarrow> Inl e
         | Inr s \<Rightarrow> Inr (pre @ s))"

section \<open>Templates: similarity\<close>

text \<open>
  The loop of \<open>SimilarityWith\<close> over the slice pairs \<open>t.slices[i]\<close>, \<open>anotherT.slices[i]\<close>.
  Reading \<open>.re\<close> through a nil \<open>valuePattern\<close> is a nil dereference.
\<close>

fun similarityLoop :: "TemplateSlice list \<Rightarrow> TemplateSlice list \<Rightarrow> Similarity \<Rightarrow> error + Similarity" where
  "similarityLoop [] ys similarity = Inr similarity"
| "similarityLoop (slc1 # xs) [] similarity = Inl Panic"
| "similarityLoop (slc1 # xs) (slc2 # ys) similarity =
     (if staticStr slc1 \<noteq> [] then
        (if staticStr slc1 \<noteq> staticStr slc2 then Inr Different
         else similarityLoop xs ys similarity)
      else
        (case valuePattern slc1 of
           None \<Rightarrow> Inl Panic
         | Some vp1 \<Rightarrow>
             (case valuePattern slc2 of
                None \<Rightarrow> Inl Panic
              | Some vp2 \<Rightarrow>
                  (case (vp_re vp1, vp_re vp2) of
                     (Some re1, Some re2) \<Rightarrow>
                       (if re1 \<noteq> re2 then Inr Different
                        else similarityLoop xs ys
                          (if vp_name vp1 \<noteq> vp_name vp2 then DifferentValueNames else similarity))
                   | (None, None) \<Rightarrow>
                       similarityLoop xs ys
                         (if vp_name vp1 \<noteq> vp_name vp2 then DifferentValueNames else similarity)
                   | _ \<Rightarrow> Inr Different))))"

text \<open>
  \<open>SimilarityWith\<close>. A nil argument panics with \<open>ErrNilArgument\<close>. \<open>IsWildcard\<close> implies a
  non-nil value pattern in the single slice, so the wildcard branch reads the names
  safely.
\<close>

definition SimilarityWith :: "Template \<Rightarrow> Template option \<Rightarrow> error + Similarity" where
  "SimilarityWith t anotherT' =
     (case anotherT' of
        None \<Rightarrow> Inl ErrNilArgument
      | Some anotherT \<Rightarrow>
          if IsStatic t then
            (if IsStatic anotherT \<and> staticStr (slices t ! 0) = staticStr (slices anotherT ! 0) then
               (if name t \<noteq> name anotherT then Inr DifferentNames else Inr TheSame)
             else Inr Different)
          else if IsWildcard t then
            (if IsWildcard anotherT then
               (if map_option vp_name (valuePattern (slices t ! 0)) =
                   map_option vp_name (valuePattern (slices anotherT ! 0)) then
                  (if name t \<noteq> name anotherT then Inr DifferentNames else Inr TheSame)
                else Inr DifferentValueNames)
             else Inr Different)
          else if IsStatic anotherT \<or> IsWildcard anotherT then Inr Different
          else if wildCardIdx t \<noteq> wildCardIdx anotherT then Inr Different
          else if length (slices t) \<noteq> length (slices anotherT) then Inr Different
          else
            (case similarityLoop (slices t) (slices anotherT) TheSame of
               Inl e \<Rightarrow> Inl e
             | Inr similarity \<Rightarrow>
                 if similarity = TheSame \<and> name t \<noteq> name anotherT then Inr DifferentNames
                 else Inr similarity))"

section \<open>Templates: parsing\<close>

text \<open>
  The loop of \<open>templateNameAndContent\<close> after the leading \<open>$\<close>. \<open>rest\<close> is \<open>tmplStr[i:]\<close>
  and \<open>strb\<close> the builder; the result is \<open>(name, content)\<close>, where \<open>content\<close> is
  \<open>tmplStr[idx+1:]\<close>. When the loop ends because an escaped colon was the last character,
  \<open>idx\<close> is the last index and the content is empty.
\<close>

function nameLoop :: "string \<Rightarrow> string \<Rightarrow> string \<times> string" where
  "nameLoop rest strb =
     (if rest = [] then (strb, [])
      else
        let k = IndexByte rest (CHR '':'') in
          if k < 0 then (strb @ rest, [])
          else if k > 0 then
            (if rest ! (nat k - 1) = bsl then
               nameLoop (drop (nat k + 1) rest) (strb @ take (nat k - 1) rest @ [CHR '':''])
             else (strb @ take (nat k) rest, drop (nat k + 1) rest))
          else (strb, drop 1 rest))"
  by pat_completeness auto
termination
  by (relation "measure (\<lambda>(rest, strb). length rest)") auto

text \<open>
  \<open>templateNameAndContent\<close> reads \<open>tmplStr[0]\<close>, which panics on the empty string (its
  callers pass a non-empty one).
\<close>

definition templateNameAndContent :: "string \<Rightarrow> error + (string \<times> string)" where
  "templateNameAndContent tmplStr =
     (case tmplStr of
        [] \<Rightarrow> Inl Panic
      | c # cs \<Rightarrow>
          if c = CHR ''$'' then
            (if cs = [] then Inl ErrInvalidTemplate else Inr (nameLoop cs []))
          else if cs \<noteq> [] \<and> c = bsl \<and> cs ! 0 = CHR ''$'' then Inr ([], cs)
          else Inr ([], tmplStr))"

text \<open>
  The loop of \<open>staticSlice\<close>. \<open>rest\<close> is the unread part \<open>tmplStrSlc[i:]\<close>, \<open>pch\<close> the
  previous character, \<open>chunk\<close> the pending \<open>tmplStrSlc[idx:i]\<close> and \<open>strb\<close> the builder. For
  an escaped brace the code writes \<open>tmplStrSlc[idx:i-1]\<close>, the chunk without its last
  character (the backslash). The result is \<open>(staticStr, leftTmplStrSlc)\<close>.
\<close>

fun staticLoop :: "string \<Rightarrow> char \<Rightarrow> string \<Rightarrow> string \<Rightarrow> error + (string \<times> string)" where
  "staticLoop [] pch chunk strb = Inr (strb @ chunk, [])"
| "staticLoop (ch # rest) pch chunk strb =
     (if ch = CHR ''{'' then
        (if pch \<noteq> bsl then Inr (strb @ chunk, ch # rest)
         else staticLoop rest ch [] (strb @ butlast chunk @ [CHR ''{'']))
      else if ch = CHR ''}'' then
        (if pch \<noteq> bsl then Inl ErrInvalidTemplate
         else staticLoop rest ch [] (strb @ butlast chunk @ [CHR ''}'']))
      else staticLoop rest ch (chunk @ [ch]) strb)"

definition staticSlice :: "string \<Rightarrow> error + (string \<times> string)" where
  "staticSlice tmplStrSlc = staticLoop tmplStrSlc (CHR ''0'') [] []"

text \<open>
  The loop of \<open>dynamicSlice\<close>, which starts at index 1. \<open>sliceType\<close> is 0 while the value
  name is read and becomes 1, for good, at the first unescaped colon; the model has one
  function for each of the two phases. \<open>rest\<close> is \<open>tmplStrSlc[i:]\<close>, \<open>prev\<close> is
  \<open>tmplStrSlc[i-1]\<close>, \<open>chunk\<close> is \<open>tmplStrSlc[idx:i]\<close> (so \<open>i == idx\<close> is \<open>chunk = []\<close>) and
  \<open>strb\<close> the builder. The result is \<open>(valueName, pattern, leftTmplStrSlc)\<close>; on an error
  the deferred function clears the three strings. When the loop runs out of input the
  code tests \<open>depth > 0\<close>.

  The pattern phase (\<open>sliceType == 1\<close>): a backslash skips the next character, and
  \<open>chClsIdx\<close> is the index of the open character class or \<open>-1\<close>.
\<close>

fun dynamicPatternLoop ::
  "string \<Rightarrow> int \<Rightarrow> char \<Rightarrow> int \<Rightarrow> string \<Rightarrow> string \<Rightarrow> int \<Rightarrow>
   error + (string \<times> string \<times> string)" where
  "dynamicPatternLoop [] i prev depth valueName chunk chClsIdx =
     (if depth > 0 then Inl ErrInvalidTemplate else Inr (valueName, [], []))"
| "dynamicPatternLoop (ch # rest) i prev depth valueName chunk chClsIdx =
     (if ch = CHR ''{'' then
        dynamicPatternLoop rest (i + 1) ch (depth + 1) valueName (chunk @ [ch]) chClsIdx
      else if ch = bsl then
        (case rest of
           [] \<Rightarrow> (if depth > 0 then Inl ErrInvalidTemplate else Inr (valueName, [], []))
         | c2 # rest2 \<Rightarrow>
             dynamicPatternLoop rest2 (i + 2) c2 depth valueName (chunk @ [ch, c2]) chClsIdx)
      else if chClsIdx \<ge> 0 then
        (if ch = CHR '']'' \<and> i - chClsIdx > 1 \<and> \<not> (i - chClsIdx = 2 \<and> prev = CHR ''^'') then
           dynamicPatternLoop rest (i + 1) ch depth valueName (chunk @ [ch]) (-1)
         else dynamicPatternLoop rest (i + 1) ch depth valueName (chunk @ [ch]) chClsIdx)
      else if ch = CHR ''['' then
        dynamicPatternLoop rest (i + 1) ch depth valueName (chunk @ [ch]) i
      else if ch = CHR ''}'' then
        (if depth - 1 > 0 then
           dynamicPatternLoop rest (i + 1) ch (depth - 1) valueName (chunk @ [ch]) chClsIdx
         else if chunk = [] then Inl ErrInvalidTemplate
         else Inr (valueName, chunk, rest))
      else dynamicPatternLoop rest (i + 1) ch depth valueName (chunk @ [ch]) chClsIdx)"

text \<open>
  The value-name phase (\<open>sliceType == 0\<close>): a colon after a backslash belongs to the name
  (the test \<open>i > 1\<close> guards the read of \<open>tmplStrSlc[i-1]\<close>), another colon ends the name,
  and the closing brace at depth 1 ends a slice without a pattern.
\<close>

fun dynamicNameLoop ::
  "string \<Rightarrow> int \<Rightarrow> char \<Rightarrow> int \<Rightarrow> string \<Rightarrow> string \<Rightarrow>
   error + (string \<times> string \<times> string)" where
  "dynamicNameLoop [] i prev depth strb chunk =
     (if depth > 0 then Inl ErrInvalidTemplate else Inr ([], [], []))"
| "dynamicNameLoop (ch # rest) i prev depth strb chunk =
     (if ch = CHR ''{'' then
        dynamicNameLoop rest (i + 1) ch (depth + 1) strb (chunk @ [ch])
      else if ch = CHR '':'' then
        (if i > 1 \<and> prev = bsl then
           dynamicNameLoop rest (i + 1) ch depth (strb @ butlast chunk @ [CHR '':'']) []
         else if depth > 1 then Inl ErrInvalidTemplate
         else if strb @ chunk = [] then Inl ErrInvalidTemplate
         else dynamicPatternLoop rest (i + 1) ch depth (strb @ chunk) [] (-1))
      else if ch = CHR ''}'' then
        (if depth - 1 > 0 then
           dynamicNameLoop rest (i + 1) ch (depth - 1) strb (chunk @ [ch])
         else if strb \<noteq> [] then Inr (strb @ chunk, [], rest)
         else if chunk = [] then Inl ErrInvalidTemplate
         else Inr (chunk, [], rest))
      else dynamicNameLoop rest (i + 1) ch depth strb (chunk @ [ch]))"

definition dynamicSlice :: "string \<Rightarrow> error + (string \<times> string \<times> string)" where
  "dynamicSlice tmplStrSlc =
     (case tmplStrSlc of
        [] \<Rightarrow> Inl ErrInvalidTemplate
      | c # rest \<Rightarrow> dynamicNameLoop rest 1 c 1 [] [])"

text \<open>
  The map \<open>valuePatterns\<close> is an association list from value names to value patterns.
  \<open>vpUpdate\<close> is the assignment \<open>valuePatterns[k] = vp\<close>.
\<close>

type_synonym valuePatterns = "(string \<times> ValuePattern) list"

fun vpUpdate :: "string \<Rightarrow> ValuePattern \<Rightarrow> valuePatterns \<Rightarrow> valuePatterns" where
  "vpUpdate k v [] = [(k, v)]"
| "vpUpdate k v ((k', v') # ps) = (if k' = k then (k, v) # ps else (k', v') # vpUpdate k v ps)"

text \<open>
  The loop \<open>for _, vp := range valuePatterns\<close> of \<open>appendDynamicSliceTo\<close> that runs when the
  wildcard is appended: each value pattern met is replaced, under its own name, by a new
  one whose source is the old source without its first character and with \<open>$\<close> appended.
  \<open>entries\<close> is the range of the loop and \<open>vps\<close> the map being assigned. The entries are
  visited in the order of the list; the result does not depend on it. \<open>p[1:]\<close> panics on
  an empty source, and \<open>.re.String()\<close> on a nil regexp.
\<close>

fun reanchorLoop :: "regexp \<Rightarrow> valuePatterns \<Rightarrow> valuePatterns \<Rightarrow> error + valuePatterns" where
  "reanchorLoop rx [] vps = Inr vps"
| "reanchorLoop rx ((k, vp) # entries) vps =
     (case vp_re vp of
        None \<Rightarrow> Inl Panic
      | Some p0 \<Rightarrow>
          (case p0 of
             [] \<Rightarrow> Inl Panic
           | c # p1 \<Rightarrow>
               let p = p1 @ [CHR ''$''] in
                 if \<not> Compile rx p then Inl ErrRegexpSyntax
                 else reanchorLoop rx entries
                        (vpUpdate (vp_name vp) \<lparr>vp_name = vp_name vp, vp_re = Some p\<rparr> vps)))"

text \<open>
  \<open>appendDynamicSliceTo\<close> returns \<open>(tss, wildCardIdx)\<close> and updates the map
  \<open>valuePatterns\<close>, which the model returns as third component.
\<close>

definition appendDynamicSliceTo ::
  "regexp \<Rightarrow> TemplateSlice list \<Rightarrow> string \<Rightarrow> string \<Rightarrow> valuePatterns \<Rightarrow> int \<Rightarrow>
   error + (TemplateSlice list \<times> int \<times> valuePatterns)" where
  "appendDynamicSliceTo rx tss vName pattern0 valuePatterns wildCardIdx0 =
     (case map_of valuePatterns vName of
        Some vp \<Rightarrow>
          (if pattern0 \<noteq> [] then
             (let pattern = (if wildCardIdx0 \<ge> 0 then pattern0 @ [CHR ''$''] else CHR ''^'' # pattern0)
              in case vp_re vp of
                   None \<Rightarrow> Inl Panic
                 | Some src \<Rightarrow>
                     if pattern \<noteq> src then Inl ErrDifferentPattern
                     else Inr (tss @ [dynamicSliceOf vp], wildCardIdx0, valuePatterns))
           else Inr (tss @ [dynamicSliceOf vp], wildCardIdx0, valuePatterns))
      | None \<Rightarrow>
          if pattern0 = [] then
            (if wildCardIdx0 \<ge> 0 then
               (if nat wildCardIdx0 < length tss then
                  (case valuePattern (tss ! nat wildCardIdx0) of
                     None \<Rightarrow> Inl Panic
                   | Some wc \<Rightarrow>
                       if vName = vp_name wc then Inl ErrRepeatedWildcardName
                       else Inl ErrAnotherWildcardName)
                else Inl Panic)
             else
               (case reanchorLoop rx valuePatterns valuePatterns of
                  Inl e \<Rightarrow> Inl e
                | Inr vps \<Rightarrow>
                    Inr (tss @ [dynamicSliceOf \<lparr>vp_name = vName, vp_re = None\<rparr>],
                         int (length tss), vps)))
          else
            (let pattern = (if wildCardIdx0 \<ge> 0 then pattern0 @ [CHR ''$''] else CHR ''^'' # pattern0)
             in if \<not> Compile rx pattern then Inl ErrRegexpSyntax
                else
                  let vp = \<lparr>vp_name = vName, vp_re = Some pattern\<rparr>
                  in Inr (tss @ [dynamicSliceOf vp], wildCardIdx0, vpUpdate vName vp valuePatterns)))"

text \<open>Both scanners return a suffix of their input; \<open>dynamicSlice\<close> consumes at least one character.\<close>


lemma staticLoop_length:
  "staticLoop s pch chunk strb = Inr (st, l) \<Longrightarrow> length l \<le> length s"
  by (induction s pch chunk strb rule: staticLoop.induct) (auto split: if_splits)

lemma staticSlice_length: "staticSlice s = Inr (st, l) \<Longrightarrow> length l \<le> length s"
  unfolding staticSlice_def by (rule staticLoop_length)

lemma dynamicPatternLoop_length:
  "dynamicPatternLoop rest i prev depth valueName chunk chClsIdx = Inr (v, p, l)
   \<Longrightarrow> length l \<le> length rest"
proof (induction rest i prev depth valueName chunk chClsIdx rule: dynamicPatternLoop.induct)
  case 1 then show ?case by (simp split: if_splits)
next
  case (2 ch rest i prev depth valueName chunk chClsIdx)
  show ?case
  proof (cases "ch = bsl")
    case True
    then show ?thesis using 2 by (cases rest) (auto split: if_splits)
  next
    case False
    then show ?thesis using 2 by (auto split: if_splits)
  qed
qed

lemma dynamicNameLoop_length:
  "dynamicNameLoop rest i prev depth strb chunk = Inr (v, p, l)
   \<Longrightarrow> length l \<le> length rest"
proof (induction rest i prev depth strb chunk rule: dynamicNameLoop.induct)
  case 1 then show ?case by (simp split: if_splits)
next
  case (2 ch rest i prev depth strb chunk)
  then show ?case
    by (auto split: if_splits dest: dynamicPatternLoop_length)
qed

lemma dynamicSlice_length: "dynamicSlice s = Inr (v, p, l) \<Longrightarrow> length l < length s"
  unfolding dynamicSlice_def by (auto split: list.splits dest: dynamicNameLoop_length)


text \<open>
  The loop \<open>for len(tmplStrSlc) > 0\<close> of \<open>parse\<close>. Each round reads a static slice and then,
  unless the input is exhausted, a dynamic slice, which is appended by
  \<open>appendDynamicSliceTo\<close>. The state at the exit is \<open>(tss, wildcardIdx, valuePatterns)\<close>.
\<close>

function parseLoop ::
  "regexp \<Rightarrow> string \<Rightarrow> TemplateSlice list \<Rightarrow> valuePatterns \<Rightarrow> int \<Rightarrow>
   error + (TemplateSlice list \<times> int \<times> valuePatterns)" where
  "parseLoop rx tmplStrSlc tss valuePatterns wildcardIdx =
     (if tmplStrSlc = [] then Inr (tss, wildcardIdx, valuePatterns)
      else
        case staticSlice tmplStrSlc of
          Inl e \<Rightarrow> Inl e
        | Inr (sstr, tmplStrSlc1) \<Rightarrow>
            let tss1 = (if sstr \<noteq> [] then tss @ [staticSliceOf sstr] else tss) in
              if tmplStrSlc1 = [] then Inr (tss1, wildcardIdx, valuePatterns)
              else
                case dynamicSlice tmplStrSlc1 of
                  Inl e \<Rightarrow> Inl e
                | Inr (vName, pattern, tmplStrSlc2) \<Rightarrow>
                    (case appendDynamicSliceTo rx tss1 vName pattern valuePatterns wildcardIdx of
                       Inl e \<Rightarrow> Inl e
                     | Inr (tss2, wildcardIdx2, valuePatterns2) \<Rightarrow>
                         parseLoop rx tmplStrSlc2 tss2 valuePatterns2 wildcardIdx2))"
  by pat_completeness auto
termination
proof (relation "measure (\<lambda>(rx, s, tss, vps, w). length s)", goal_cases)
  case 1
  show ?case by simp
next
  case 2
  then show ?case
    by (auto dest!: staticSlice_length dynamicSlice_length)
qed

text \<open>
  \<open>parse\<close>. A template made of a single value-pattern slice gets \<open>$\<close> appended to the
  source of its regexp, so that it matches the whole string.
\<close>

definition parse :: "regexp \<Rightarrow> string \<Rightarrow> error + (TemplateSlice list \<times> int)" where
  "parse rx tmplStr =
     (if tmplStr = [] then Inl ErrInvalidTemplate
      else
        case parseLoop rx tmplStr [] [] (-1) of
          Inl e \<Rightarrow> Inl e
        | Inr (tss, wildcardIdx, valuePatterns) \<Rightarrow>
            if length tss = 1 then
              (case valuePattern (tss ! 0) of
                 None \<Rightarrow> Inr (tss, wildcardIdx)
               | Some vp \<Rightarrow>
                   (case vp_re vp of
                      None \<Rightarrow> Inr (tss, wildcardIdx)
                    | Some re \<Rightarrow>
                        let reStr = re @ [CHR ''$''] in
                          if \<not> Compile rx reStr then Inl ErrRegexpSyntax
                          else Inr ([dynamicSliceOf (vp\<lparr>vp_re := Some reStr\<rparr>)], wildcardIdx)))
            else Inr (tss, wildcardIdx))"

text \<open>
  The loop of \<open>TryToParse\<close> that looks for the single dynamic slice of a template without
  a name: \<open>idx\<close> is the index of the dynamic slice met so far (\<open>-1\<close> for none), and the
  result is \<open>None\<close> when a second one is met (the template is returned as it is).
\<close>

fun singleDynamicIdx :: "TemplateSlice list \<Rightarrow> nat \<Rightarrow> int \<Rightarrow> int option" where
  "singleDynamicIdx [] i idx = Some idx"
| "singleDynamicIdx (slc # rest) i idx =
     (if valuePattern slc \<noteq> None then
        (if idx > -1 then None else singleDynamicIdx rest (i + 1) (int i))
      else singleDynamicIdx rest (i + 1) idx)"

definition TryToParse :: "regexp \<Rightarrow> string \<Rightarrow> error + Template" where
  "TryToParse rx tmplStr0 =
     (if tmplStr0 = [] then Inl ErrInvalidTemplate
      else
        case templateNameAndContent tmplStr0 of
          Inl e \<Rightarrow> Inl e
        | Inr (name0, tmplStr) \<Rightarrow>
            (case parse rx tmplStr of
               Inl e \<Rightarrow> Inl e
             | Inr (tss, wildcardIdx) \<Rightarrow>
                 let tmpl = \<lparr>name = name0, slices = tss, wildCardIdx = wildcardIdx\<rparr> in
                   if \<not> IsStatic tmpl \<and> name tmpl = [] then
                     (if IsWildcard tmpl then
                        (case valuePattern (slices tmpl ! 0) of
                           None \<Rightarrow> Inl Panic
                         | Some vp \<Rightarrow> Inr (tmpl\<lparr>name := vp_name vp\<rparr>))
                      else
                        (case singleDynamicIdx (slices tmpl) 0 (-1) of
                           None \<Rightarrow> Inr tmpl
                         | Some idx \<Rightarrow>
                             if idx > -1 then
                               (case valuePattern (slices tmpl ! nat idx) of
                                  None \<Rightarrow> Inl Panic
                                | Some vp \<Rightarrow> Inr (tmpl\<lparr>name := vp_name vp\<rparr>))
                             else Inr tmpl))
                   else Inr tmpl))"

section \<open>An engine for closed evaluations\<close>

text \<open>
  The general theorems hold for every engine \<open>rx\<close>. To evaluate the model at concrete
  inputs, \<open>litRegexp\<close> implements the fragment of the regexp syntax whose sources are a
  non-empty word of lower-case letters and digits, with any number of \<open>^\<close> before it and of
  \<open>$\<close> after it: the word matches itself, \<open>^\<close> anchors the match at the start of the text
  and \<open>$\<close> at its end. Sources outside the fragment do not compile in this instance.
\<close>

definition isLit :: "char \<Rightarrow> bool" where
  "isLit c = (c \<in> set ''abcdefghijklmnopqrstuvwxyz0123456789'')"

text \<open>\<open>litParse src\<close> is \<open>(anchored at the start, word, anchored at the end)\<close>.\<close>

definition litParse :: "string \<Rightarrow> (bool \<times> string \<times> bool) option" where
  "litParse src =
     (let r = dropWhile (\<lambda>c. c = CHR ''^'') src;
          w = takeWhile isLit r;
          e = dropWhile isLit r
      in if w \<noteq> [] \<and> (\<forall>c \<in> set e. c = CHR ''$'')
         then Some (r \<noteq> src, w, e \<noteq> []) else None)"

text \<open>
  The successive matches, from left to right and without overlap: \<open>p\<close> is the position
  of the text \<open>c # cs\<close> still to be searched, and \<open>skip\<close> counts the positions covered by
  the last match.
\<close>

fun litScan :: "bool \<Rightarrow> string \<Rightarrow> bool \<Rightarrow> nat \<Rightarrow> string \<Rightarrow> nat \<Rightarrow> (nat \<times> nat) list" where
  "litScan a w e p [] skip = []"
| "litScan a w e p (c # cs) skip =
     (if skip > 0 then litScan a w e (p + 1) cs (skip - 1)
      else if prefix w (c # cs) \<and> (a \<longrightarrow> p = 0) \<and> (e \<longrightarrow> length w = length (c # cs)) then
        (p, p + length w) # litScan a w e (p + 1) cs (length w - 1)
      else litScan a w e (p + 1) cs 0)"

definition litRegexp :: regexp where
  "litRegexp =
     \<lparr>Compile = (\<lambda>src. litParse src \<noteq> None),
      FindAllStringIndex = (\<lambda>src s.
         case litParse src of
           None \<Rightarrow> []
         | Some (a, w, e) \<Rightarrow> litScan a w e 0 s 0)\<rparr>"

section \<open>Templates: \<open>Match\<close> and \<open>Apply\<close>\<close>

text \<open>
  The first loop of \<open>Match\<close>, \<open>for i := 0; i < k; i++\<close>, over the indices \<open>is\<close>: the slices
  left of the wildcard consume the string from its start. The result is \<open>None\<close> when the
  method returns \<open>false, nil\<close>, and the remaining string with the values otherwise.
\<close>

fun matchLeft ::
  "regexp \<Rightarrow> Template \<Rightarrow> nat list \<Rightarrow> string \<Rightarrow> (string \<rightharpoonup> string) \<Rightarrow>
   error + (string \<times> (string \<rightharpoonup> string)) option" where
  "matchLeft rx t [] str values = Inr (Some (str, values))"
| "matchLeft rx t (i # is) str values =
     (if i \<ge> length (slices t) then Inl Panic
      else
        let sstr = staticStr (slices t ! i) in
          if sstr \<noteq> [] then
            (if HasPrefix str sstr then matchLeft rx t is (drop (length sstr) str) values
             else Inr None)
          else
            (case valuePattern (slices t ! i) of
               None \<Rightarrow> Inl Panic
             | Some vp \<Rightarrow>
                 (case vp_re vp of
                    None \<Rightarrow> Inl Panic
                  | Some re \<Rightarrow>
                      (case FindStringIndex rx re str of
                         None \<Rightarrow> Inr None
                       | Some idxs \<Rightarrow>
                           let v = take (snd idxs) str in
                             (case values (vp_name vp) of
                                Some vf \<Rightarrow>
                                  if v \<noteq> vf then Inr None
                                  else matchLeft rx t is (drop (snd idxs) str) values
                              | None \<Rightarrow>
                                  matchLeft rx t is (drop (snd idxs) str)
                                    (values(vp_name vp \<mapsto> v)))))))"

text \<open>
  The second loop, \<open>for i := ltslices - 1; i > k; i--\<close>: the slices right of the wildcard
  consume the string from its end; a pattern takes the last of all its matches.
\<close>

fun matchRight ::
  "regexp \<Rightarrow> Template \<Rightarrow> nat list \<Rightarrow> string \<Rightarrow> (string \<rightharpoonup> string) \<Rightarrow>
   error + (string \<times> (string \<rightharpoonup> string)) option" where
  "matchRight rx t [] str values = Inr (Some (str, values))"
| "matchRight rx t (i # is) str values =
     (if i \<ge> length (slices t) then Inl Panic
      else
        let sstr = staticStr (slices t ! i) in
          if sstr \<noteq> [] then
            (if HasSuffix str sstr then
               matchRight rx t is (take (length str - length sstr) str) values
             else Inr None)
          else
            (case valuePattern (slices t ! i) of
               None \<Rightarrow> Inl Panic
             | Some vp \<Rightarrow>
                 (case vp_re vp of
                    None \<Rightarrow> Inl Panic
                  | Some re \<Rightarrow>
                      (case FindAllStringIndex rx re str of
                         [] \<Rightarrow> Inr None
                       | m # ms \<Rightarrow>
                           let lastIdxs = last (m # ms);
                               v = drop (fst lastIdxs) str
                           in
                             (case values (vp_name vp) of
                                Some vf \<Rightarrow>
                                  if v \<noteq> vf then Inr None
                                  else matchRight rx t is (take (fst lastIdxs) str) values
                              | None \<Rightarrow>
                                  matchRight rx t is (take (fst lastIdxs) str)
                                    (values(vp_name vp \<mapsto> v)))))))"

text \<open>
  \<open>Match\<close> returns \<open>(matched, values)\<close>; the map \<open>values\<close> is \<open>None\<close> when nil.
\<close>

definition Match :: "regexp \<Rightarrow> Template \<Rightarrow> string \<Rightarrow> error + (bool \<times> (string \<rightharpoonup> string) option)" where
  "Match rx t str0 =
     (if IsStatic t then Inr (staticStr (slices t ! 0) = str0, None)
      else if IsWildcard t then
        (case valuePattern (slices t ! 0) of
           None \<Rightarrow> Inl Panic
         | Some vp \<Rightarrow> Inr (True, Some (Map.empty(vp_name vp \<mapsto> str0))))
      else
        let ltslices = length (slices t);
            k = (if wildCardIdx t \<ge> 0 then nat (wildCardIdx t) else ltslices)
        in
          case matchLeft rx t [0..<k] str0 Map.empty of
            Inl e \<Rightarrow> Inl e
          | Inr None \<Rightarrow> Inr (False, None)
          | Inr (Some (str1, values1)) \<Rightarrow>
              (case matchRight rx t (rev [k + 1..<ltslices]) str1 values1 of
                 Inl e \<Rightarrow> Inl e
               | Inr None \<Rightarrow> Inr (False, None)
               | Inr (Some (str, values)) \<Rightarrow>
                   if wildCardIdx t \<ge> 0 \<and> length str > 0 then
                     (if nat (wildCardIdx t) \<ge> ltslices then Inl Panic
                      else
                        case valuePattern (slices t ! nat (wildCardIdx t)) of
                          None \<Rightarrow> Inl Panic
                        | Some vp \<Rightarrow> Inr (True, Some (values(vp_name vp \<mapsto> str))))
                   else Inr (True, Some values)))"

text \<open>
  The loop of \<open>Apply\<close> over the slices, with the builder \<open>strb\<close>. A value is refused when
  its regexp has no match in it, or when the leftmost match neither starts at index 0 nor
  ends at the end of the value.
\<close>

fun applyLoop ::
  "regexp \<Rightarrow> TemplateSlice list \<Rightarrow> (string \<rightharpoonup> string) \<Rightarrow> bool \<Rightarrow> string \<Rightarrow> error + string" where
  "applyLoop rx [] values ignoreMissing strb = Inr strb"
| "applyLoop rx (slc # rest) values ignoreMissing strb =
     (if staticStr slc \<noteq> [] then
        applyLoop rx rest values ignoreMissing (strb @ staticStr slc)
      else
        (case valuePattern slc of
           None \<Rightarrow> Inl Panic
         | Some vp \<Rightarrow>
             (case values (vp_name vp) of
                Some v \<Rightarrow>
                  (case vp_re vp of
                     Some re \<Rightarrow>
                       (case FindStringIndex rx re v of
                          None \<Rightarrow> Inl ErrInvalidValue
                        | Some idxs \<Rightarrow>
                            if fst idxs \<noteq> 0 \<and> snd idxs \<noteq> length v then Inl ErrInvalidValue
                            else applyLoop rx rest values ignoreMissing (strb @ v))
                   | None \<Rightarrow> applyLoop rx rest values ignoreMissing (strb @ v))
              | None \<Rightarrow>
                  if ignoreMissing then applyLoop rx rest values ignoreMissing strb
                  else Inl ErrMissingValue)))"

definition Apply :: "regexp \<Rightarrow> Template \<Rightarrow> (string \<rightharpoonup> string) \<Rightarrow> bool \<Rightarrow> error + string" where
  "Apply rx t values ignoreMissing = applyLoop rx (slices t) values ignoreMissing []"

section \<open>Example templates\<close>

text \<open>
  The templates that \<open>TryToParse\<close> returns for \<open>a{w}\<close>, \<open>{x:ab}b\<close> and \<open>a{x:ab}\<close>; they are
  the concrete inputs of the evaluations below.
\<close>

definition tmpl_aw :: Template where
  "tmpl_aw =
     \<lparr>name = ''w'',
      slices = [staticSliceOf ''a'', dynamicSliceOf \<lparr>vp_name = ''w'', vp_re = None\<rparr>],
      wildCardIdx = 1\<rparr>"

definition tmpl_xb :: Template where
  "tmpl_xb =
     \<lparr>name = ''x'',
      slices = [dynamicSliceOf \<lparr>vp_name = ''x'', vp_re = Some ''^ab''\<rparr>, staticSliceOf ''b''],
      wildCardIdx = -1\<rparr>"

definition tmpl_ax :: Template where
  "tmpl_ax =
     \<lparr>name = ''x'',
      slices = [staticSliceOf ''a'', dynamicSliceOf \<lparr>vp_name = ''x'', vp_re = Some ''^ab''\<rparr>],
      wildCardIdx = -1\<rparr>"

text \<open>The template that \<open>TryToParse\<close> returns for \<open>{x:ab}\<close>, a single value-pattern slice.\<close>

definition tmpl_x :: Template where
  "tmpl_x =
     \<lparr>name = ''x'',
      slices = [dynamicSliceOf \<lparr>vp_name = ''x'', vp_re = Some ''^ab$''\<rparr>],
      wildCardIdx = -1\<rparr>"

text \<open>
  The template that \<open>TryToParse\<close> returns for \<open>{x:ab}{w}{x}\<close>, and the one that it returns
  for \<open>{x:^ab}{w}{x}\<close>.
\<close>

definition tmpl_xwx :: Template where
  "tmpl_xwx =
     \<lparr>name = [],
      slices = [dynamicSliceOf \<lparr>vp_name = ''x'', vp_re = Some ''^ab''\<rparr>,
                dynamicSliceOf \<lparr>vp_name = ''w'', vp_re = None\<rparr>,
                dynamicSliceOf \<lparr>vp_name = ''x'', vp_re = Some ''ab$''\<rparr>],
      wildCardIdx = 1\<rparr>"

definition tmpl_xwx_again :: Template where
  "tmpl_xwx_again =
     \<lparr>name = [],
      slices = [dynamicSliceOf \<lparr>vp_name = ''x'', vp_re = Some ''^^ab''\<rparr>,
                dynamicSliceOf \<lparr>vp_name = ''w'', vp_re = None\<rparr>,
                dynamicSliceOf \<lparr>vp_name = ''x'', vp_re = Some ''^ab$''\<rparr>],
      wildCardIdx = 1\<rparr>"

section \<open>Anchors of the recorded value patterns\<close>

text \<open>
  Two states of the map \<open>valuePatterns\<close>. In both the keys are distinct and every value
  pattern is recorded under its own name. \<open>startAnchored\<close>: every source starts with \<open>^\<close>.
  \<open>endAnchored\<close>: every source ends in \<open>$\<close>.
\<close>

definition startsWithCaret :: "ValuePattern \<Rightarrow> bool" where
  "startsWithCaret vp = (case vp_re vp of Some (c # x) \<Rightarrow> c = CHR ''^'' | _ \<Rightarrow> False)"

definition endsWithDollar :: "ValuePattern \<Rightarrow> bool" where
  "endsWithDollar vp = (case vp_re vp of Some p \<Rightarrow> p \<noteq> [] \<and> last p = CHR ''$'' | None \<Rightarrow> False)"

definition startAnchored :: "valuePatterns \<Rightarrow> bool" where
  "startAnchored vps =
     (distinct (map fst vps) \<and> list_all (\<lambda>(k, vp). vp_name vp = k \<and> startsWithCaret vp) vps)"

definition endAnchored :: "valuePatterns \<Rightarrow> bool" where
  "endAnchored vps =
     (distinct (map fst vps) \<and> list_all (\<lambda>(k, vp). vp_name vp = k \<and> endsWithDollar vp) vps)"

text \<open>The value pattern that replaces \<open>vp\<close> when the wildcard is appended.\<close>

definition reanchored :: "ValuePattern \<Rightarrow> ValuePattern" where
  "reanchored vp = \<lparr>vp_name = vp_name vp, vp_re = Some (tl (the (vp_re vp)) @ [CHR ''$''])\<rparr>"

text \<open>
  The invariant of the loop of \<open>parse\<close> on \<open>(tss, wildcardIdx, valuePatterns)\<close>. Before the
  wildcard, the map is start-anchored and every pattern slice holds the value pattern
  recorded under its name. After it, the slice at \<open>wildcardIdx\<close> is the wildcard, the map is
  end-anchored, every pattern slice left of the wildcard is start-anchored and the map
  holds its re-anchored replacement, and every pattern slice right of the wildcard holds
  the value pattern recorded under its name.
\<close>

definition parseInv :: "TemplateSlice list \<Rightarrow> int \<Rightarrow> valuePatterns \<Rightarrow> bool" where
  "parseInv tss wci vps =
     (if wci < 0 then
        startAnchored vps \<and>
        (\<forall>slc \<in> set tss. \<forall>vp. valuePattern slc = Some vp \<longrightarrow>
           map_of vps (vp_name vp) = Some vp)
      else
        nat wci < length tss \<and>
        (\<exists>n. tss ! nat wci = dynamicSliceOf \<lparr>vp_name = n, vp_re = None\<rparr>) \<and>
        endAnchored vps \<and>
        (\<forall>slc \<in> set (take (nat wci) tss). \<forall>vp. valuePattern slc = Some vp \<longrightarrow>
           startsWithCaret vp \<and> map_of vps (vp_name vp) = Some (reanchored vp)) \<and>
        (\<forall>slc \<in> set (drop (Suc (nat wci)) tss). \<forall>vq. valuePattern slc = Some vq \<longrightarrow>
           map_of vps (vp_name vq) = Some vq))"

section \<open>Responder configuration flags (responder.go)\<close>

type_synonym ConfigFlags = "8 word"

definition flagActive :: ConfigFlags where "flagActive = 1"
definition flagSubtreeHandler :: ConfigFlags where "flagSubtreeHandler = 2"
definition flagSecure :: ConfigFlags where "flagSecure = 4"
definition flagRedirectInsecure :: ConfigFlags where "flagRedirectInsecure = 8"
definition flagTrailingSlash :: ConfigFlags where "flagTrailingSlash = 16"
definition flagStrictOnTrailingSlash :: ConfigFlags where "flagStrictOnTrailingSlash = 32"
definition flagLeniencyOnTrailingSlash :: ConfigFlags where "flagLeniencyOnTrailingSlash = 64"
definition flagLeniencyOnUncleanPath :: ConfigFlags where "flagLeniencyOnUncleanPath = 128"

definition flagHandleThePathAsIs :: ConfigFlags where
  "flagHandleThePathAsIs = flagLeniencyOnTrailingSlash OR flagLeniencyOnUncleanPath"

text \<open>The methods \<open>set\<close> and \<open>has\<close> of \<open>_ConfigFlags\<close>.\<close>

definition setFlags :: "ConfigFlags \<Rightarrow> ConfigFlags \<Rightarrow> ConfigFlags" where
  "setFlags cfs flags = cfs OR flags"

definition has :: "ConfigFlags \<Rightarrow> ConfigFlags \<Rightarrow> bool" where
  "has cfs flags = (cfs AND flags = flags)"

record Config =
  SubtreeHandler :: bool
  Secure :: bool
  RedirectInsecureRequest :: bool
  TrailingSlash :: bool
  StrictOnTrailingSlash :: bool
  LeniencyOnTrailingSlash :: bool
  LeniencyOnUncleanPath :: bool
  HandleThePathAsIs :: bool

definition asFlags :: "Config \<Rightarrow> ConfigFlags" where
  "asFlags config =
     (let c0 = (0 :: ConfigFlags);
          c1 = (if SubtreeHandler config then setFlags c0 flagSubtreeHandler else c0);
          c2 = (if Secure config then setFlags c1 flagSecure else c1);
          c3 = (if RedirectInsecureRequest config
                then setFlags c2 (flagSecure OR flagRedirectInsecure) else c2);
          c4 = (if TrailingSlash config then setFlags c3 flagTrailingSlash else c3);
          c5 = (if StrictOnTrailingSlash config then setFlags c4 flagStrictOnTrailingSlash else c4);
          c6 = (if LeniencyOnTrailingSlash config
                then setFlags c5 flagLeniencyOnTrailingSlash else c5);
          c7 = (if LeniencyOnUncleanPath config then setFlags c6 flagLeniencyOnUncleanPath else c6);
          c8 = (if HandleThePathAsIs config then setFlags c7 flagHandleThePathAsIs else c7)
      in c8)"

section \<open>The responder tree: data\<close>

text \<open>
  Hosts and resources are heap objects that point to each other (a responder to its
  children, a child to its parent). The model is an explicit store: a responder is
  referred to by its address, a natural number, and \<open>heap st\<close> maps an address to the
  \<open>_ResponderBase\<close> stored there. \<open>nxt st\<close> is the first address not allocated yet. A
  \<open>*Resource\<close> that may be nil is an \<open>nat option\<close>.

  The interface \<open>_Parent\<close> is implemented by the router and by the responders.
\<close>

datatype Parent = RouterParent | ResponderParent nat

record URLTmpl =
  Scheme :: string
  Host :: string
  PrefixPath :: string

text \<open>
  \<open>isHost\<close> tells whether \<open>derived\<close> is a \<open>*Host\<close> (otherwise a \<open>*Resource\<close>). The map
  \<open>staticResources\<close> is an association list, whose order stands for the order in which a
  \<open>range\<close> over the map visits it. \<open>requestHandlerBase\<close> is \<open>None\<close> for a nil
  \<open>*_RequestHandlerBase\<close> and otherwise holds \<open>len(mhPairs)\<close>, the number of HTTP method
  handlers. \<open>urlt\<close> is what the method \<open>urlTmpl\<close> of a resource returns.
\<close>

record Responder =
  isHost :: bool
  tmpl :: Template
  papa :: "Parent option"
  staticResources :: "(string \<times> nat) list"
  patternResources :: "nat list"
  wildcardResource :: "nat option"
  requestHandlerBase :: "nat option"
  cfs :: ConfigFlags
  urlt :: "URLTmpl option"

record state =
  heap :: "nat \<Rightarrow> Responder"
  nxt :: nat

definition updateResponder :: "state \<Rightarrow> nat \<Rightarrow> (Responder \<Rightarrow> Responder) \<Rightarrow> state" where
  "updateResponder st rb f = st\<lparr>heap := (heap st)(rb := f (heap st rb))\<rparr>"

definition Name :: "state \<Rightarrow> nat \<Rightarrow> string" where
  "Name st rb = name (tmpl (heap st rb))"

definition parent :: "state \<Rightarrow> nat \<Rightarrow> Parent option" where
  "parent st rb = papa (heap st rb)"

definition configFlags :: "state \<Rightarrow> nat \<Rightarrow> ConfigFlags" where
  "configFlags st rb = cfs (heap st rb)"

definition setConfigFlags :: "state \<Rightarrow> nat \<Rightarrow> ConfigFlags \<Rightarrow> state" where
  "setConfigFlags st rb flag = updateResponder st rb (\<lambda>r. r\<lparr>cfs := setFlags (cfs r) flag\<rparr>)"

definition canHandleRequest :: "state \<Rightarrow> nat \<Rightarrow> bool" where
  "canHandleRequest st rb =
     (case requestHandlerBase (heap st rb) of None \<Rightarrow> False | Some n \<Rightarrow> n > 0)"

text \<open>
  \<open>configCompatibility\<close>; \<open>cfs\<close> is \<open>None\<close> for a nil pointer. The result is the error
  and the state after the call.
\<close>

definition configCompatibility ::
  "state \<Rightarrow> nat \<Rightarrow> bool \<Rightarrow> bool \<Rightarrow> ConfigFlags option \<Rightarrow> error option \<times> state" where
  "configCompatibility st rb secure tslash cfs' =
     (let rbcfs = configFlags st rb in
        if has rbcfs flagActive then
          (if has rbcfs flagSecure \<noteq> secure then (Some ErrConflictingSecurity, st)
           else if \<not> has rbcfs flagLeniencyOnTrailingSlash \<and> has rbcfs flagTrailingSlash \<noteq> tslash
             then (Some ErrConflictingTrailingSlash, st)
           else
             (case cfs' of
                None \<Rightarrow> (None, st)
              | Some c \<Rightarrow> if \<not> has rbcfs c then (Some ErrConflictingConfig, st) else (None, st)))
        else
          let st1 = setConfigFlags st rb flagActive;
              st2 = (if secure then setConfigFlags st1 rb flagSecure else st1);
              st3 = (if tslash then setConfigFlags st2 rb flagTrailingSlash else st2);
              st4 = (case cfs' of None \<Rightarrow> st3 | Some c \<Rightarrow> setConfigFlags st3 rb c)
          in (None, st4))"

section \<open>Template methods used by the responder tree\<close>

text \<open>
  Modelled from the spec: the methods \<open>UnescapedContent\<close>, \<open>ValueNames\<close> and \<open>HasValueName\<close>
  of \<open>Template\<close> are called by the responder tree and are not in the source files. The
  spec says that the static children are keyed by the unescaped static content, that a
  root resource has the template content \<open>/\<close>, and that no ancestor template may share a
  value name with the template of a registered resource. \<open>UnescapedContent\<close> is the
  content without the backslashes that \<open>Content\<close> writes; \<open>ValueNames\<close> lists the value
  names of the dynamic slices (nil, here the empty list, when there is none).
\<close>

fun unescapedSlices :: "TemplateSlice list \<Rightarrow> string list \<Rightarrow> string" where
  "unescapedSlices [] vns = []"
| "unescapedSlices (slc # rest) vns =
     (if staticStr slc \<noteq> [] then staticStr slc @ unescapedSlices rest vns
      else
        (case valuePattern slc of
           None \<Rightarrow> unescapedSlices rest vns
         | Some vp \<Rightarrow>
             (case vp_re vp of
                Some re \<Rightarrow>
                  (if vp_name vp \<notin> set vns then
                     [CHR ''{''] @ vp_name vp @ [CHR '':''] @ re @ [CHR ''}'']
                       @ unescapedSlices rest (vp_name vp # vns)
                   else [CHR ''{''] @ vp_name vp @ [CHR ''}''] @ unescapedSlices rest vns)
              | None \<Rightarrow> [CHR ''{''] @ vp_name vp @ [CHR ''}''] @ unescapedSlices rest vns)))"

definition UnescapedContent :: "Template \<Rightarrow> string" where
  "UnescapedContent t = unescapedSlices (slices t) []"

definition ValueNames :: "Template \<Rightarrow> string list" where
  "ValueNames t =
     remdups (concat (map (\<lambda>slc. case valuePattern slc of None \<Rightarrow> [] | Some vp \<Rightarrow> [vp_name vp])
                          (slices t)))"

definition HasValueName :: "Template \<Rightarrow> string list \<Rightarrow> bool" where
  "HasValueName t names = (\<exists>n \<in> set names. n \<in> set (ValueNames t))"

section \<open>The path segment iterator (utils.go)\<close>

text \<open>
  \<open>slashDecoderRe.ReplaceAllLiteralString(segment, "/")\<close>, where \<open>slashDecoderRe\<close> is the
  regexp \<open>(%2f)|(%2F)\<close>: every \<open>%2f\<close> and \<open>%2F\<close> becomes a slash.
\<close>

fun decodeSlash :: "string \<Rightarrow> string" where
  "decodeSlash (a # b # c # rest) =
     (if a = CHR ''%'' \<and> b = CHR ''2'' \<and> (c = CHR ''f'' \<or> c = CHR ''F'')
      then CHR ''/'' # decodeSlash rest
      else a # decodeSlash (b # c # rest))"
| "decodeSlash s = s"

record PathSegmentIterator =
  psi_path :: string
  psi_root :: bool
  psi_tslash :: bool

definition makePathSegmentIterator :: "string \<Rightarrow> PathSegmentIterator" where
  "makePathSegmentIterator p =
     \<lparr>psi_path = p, psi_root = (p = ''/''),
      psi_tslash = (p \<noteq> [] \<and> p \<noteq> ''/'' \<and> last p = CHR ''/'')\<rparr>"

definition nextSegment :: "PathSegmentIterator \<Rightarrow> string \<times> PathSegmentIterator" where
  "nextSegment psi =
     (if psi_path psi = [] then ([], psi)
      else
        let p1 = (if hd (psi_path psi) = CHR ''/'' then tl (psi_path psi) else psi_path psi);
            idx = IndexByte p1 (CHR ''/'')
        in if idx < 0 then (decodeSlash p1, psi\<lparr>psi_path := []\<rparr>)
           else (decodeSlash (take (nat idx) p1), psi\<lparr>psi_path := drop (nat idx + 1) p1\<rparr>))"

definition remainingPath :: "PathSegmentIterator \<Rightarrow> string \<times> PathSegmentIterator" where
  "remainingPath psi =
     (let psi1 = (if psi_path psi \<noteq> [] \<and> hd (psi_path psi) = CHR ''/''
                  then psi\<lparr>psi_path := tl (psi_path psi)\<rparr> else psi)
      in (psi_path psi1, psi1))"

definition pathHasTrailingSlash :: "PathSegmentIterator \<Rightarrow> bool" where
  "pathHasTrailingSlash psi = psi_tslash psi"

lemma nextSegment_shorter:
  "psi_path psi \<noteq> [] \<Longrightarrow> length (psi_path (snd (nextSegment psi))) < length (psi_path psi)"
  by (cases "psi_path psi") (auto simp: nextSegment_def Let_def)

text \<open>
  The loop \<open>for ps := psi.nextSegment(); ps != ""; ps = psi.nextSegment()\<close> of
  \<open>splitPathSegments\<close>; the result is the list of segments and the iterator at the exit.
\<close>

function segmentsLoop :: "PathSegmentIterator \<Rightarrow> string list \<Rightarrow> string list \<times> PathSegmentIterator" where
  "segmentsLoop psi pss =
     (let (ps, psi1) = nextSegment psi in
        if ps = [] then (pss, psi1) else segmentsLoop psi1 (pss @ [ps]))"
  by pat_completeness auto
termination
proof (relation "measure (\<lambda>(psi, pss). length (psi_path psi))", goal_cases)
  case 1
  show ?case by simp
next
  case (2 psi pss x ps psi1)
  then have ne: "psi_path psi \<noteq> []" by (auto simp: nextSegment_def)
  from 2 have "psi1 = snd (nextSegment psi)" by (metis snd_conv)
  with nextSegment_shorter[OF ne] show ?case by simp
qed

text \<open>\<open>splitPathSegments\<close> returns \<open>(pss, root, tslash, err)\<close>.\<close>

definition splitPathSegments :: "string \<Rightarrow> string list \<times> bool \<times> bool \<times> error option" where
  "splitPathSegments p =
     (if p = ''/'' then ([''/''], True, False, None)
      else
        let (pss, psi) = segmentsLoop (makePathSegmentIterator p) [] in
          if fst (remainingPath psi) \<noteq> [] then ([], False, False, Some ErrEmptyPathSegmentTemplate)
          else (pss, False, pathHasTrailingSlash psi, None))"

section \<open>The responder tree: parents and names\<close>

text \<open>
  Several loops of the responder tree follow the \<open>papa\<close> pointers or descend into the child
  resources. Nothing in the types keeps these structures acyclic, so the model bounds each
  such loop by a fuel argument; the result \<open>None\<close> means that the fuel ran out. All other
  results are \<open>Some\<close>.
\<close>

definition ChildResources :: "state \<Rightarrow> nat \<Rightarrow> nat list" where
  "ChildResources st rb =
     map snd (staticResources (heap st rb)) @ patternResources (heap st rb) @
     (case wildcardResource (heap st rb) of None \<Rightarrow> [] | Some w \<Rightarrow> [w])"

text \<open>
  \<open>setParent\<close>. Only a router can be the parent of a host or of a resource whose
  template content is \<open>/\<close>.
\<close>

definition setParent :: "state \<Rightarrow> nat \<Rightarrow> Parent option \<Rightarrow> error option \<times> state" where
  "setParent st rb p =
     (case p of
        None \<Rightarrow> (None, updateResponder st rb (\<lambda>r. r\<lparr>papa := None\<rparr>))
      | Some q \<Rightarrow>
          if isHost (heap st rb) \<and> q \<noteq> RouterParent then (Some ErrNonRouterParent, st)
          else if UnescapedContent (tmpl (heap st rb)) = ''/'' \<and> q \<noteq> RouterParent
            then (Some ErrNonRouterParent, st)
          else (None, updateResponder st rb (\<lambda>r. r\<lparr>papa := Some q\<rparr>)))"

text \<open>
  \<open>resourcesInThePath\<close>: the responders from the top of the hierarchy down to the
  responder itself. \<open>p\<close> is the loop variable and \<open>acc\<close> the responders met so far, the last
  met first (the code reverses its slice at the end).
\<close>

fun pathWalk :: "nat \<Rightarrow> state \<Rightarrow> Parent option \<Rightarrow> nat list \<Rightarrow> nat list option" where
  "pathWalk 0 st p acc = None"
| "pathWalk (Suc n) st p acc =
     (case p of
        None \<Rightarrow> Some acc
      | Some RouterParent \<Rightarrow> Some acc
      | Some (ResponderParent r) \<Rightarrow> pathWalk n st (parent st r) (r # acc))"

definition resourcesInThePath :: "nat \<Rightarrow> state \<Rightarrow> nat \<Rightarrow> nat list option" where
  "resourcesInThePath fuel st rb = pathWalk fuel st (Some (ResponderParent rb)) []"

text \<open>
  Modelled from the spec: the method \<open>Host\<close> of a resource is not in the source files.
  The spec says that resources hang under a host; the model follows the parents of the
  resource up to the first host (nil when there is none).
\<close>

fun hostWalk :: "nat \<Rightarrow> state \<Rightarrow> Parent option \<Rightarrow> nat option option" where
  "hostWalk 0 st p = None"
| "hostWalk (Suc n) st p =
     (case p of
        None \<Rightarrow> Some None
      | Some RouterParent \<Rightarrow> Some None
      | Some (ResponderParent r) \<Rightarrow>
          if isHost (heap st r) then Some (Some r) else hostWalk n st (parent st r))"

definition HostOf :: "nat \<Rightarrow> state \<Rightarrow> nat \<Rightarrow> nat option option" where
  "HostOf fuel st r = hostWalk fuel st (parent st r)"

text \<open>
  Modelled from the spec: the method \<open>IsRoot\<close> of a resource is not in the source files;
  the spec calls root a resource whose template content is \<open>/\<close>.
\<close>

definition IsRoot :: "state \<Rightarrow> nat \<Rightarrow> bool" where
  "IsRoot st r = (UnescapedContent (tmpl (heap st r)) = ''/'')"

text \<open>
  The loop of \<open>checkNamesAreUniqueInTheURL\<close>, from the responder itself upwards until the
  router or nil.
\<close>

fun namesWalk ::
  "nat \<Rightarrow> state \<Rightarrow> Template \<Rightarrow> string list \<Rightarrow> Parent option \<Rightarrow> error option option" where
  "namesWalk 0 st t vns p = None"
| "namesWalk (Suc n) st t vns p =
     (case p of
        None \<Rightarrow> Some None
      | Some RouterParent \<Rightarrow> Some None
      | Some (ResponderParent r) \<Rightarrow>
          if name t \<noteq> [] \<and> Name st r = name t then Some (Some ErrDuplicateNameInTheURL)
          else if HasValueName (tmpl (heap st r)) vns then Some (Some ErrDuplicateValueNameInTheURL)
          else namesWalk n st t vns (parent st r))"

definition checkNamesAreUniqueInTheURL ::
  "nat \<Rightarrow> state \<Rightarrow> nat \<Rightarrow> Template \<Rightarrow> error option option" where
  "checkNamesAreUniqueInTheURL fuel st rb t =
     (let tmplValueNames = ValueNames t in
        if name t = [] \<and> tmplValueNames = [] then Some None
        else namesWalk fuel st t tmplValueNames (Some (ResponderParent rb)))"

text \<open>
  \<open>checkNamesOfTheChildrenAreUniqueInTheURL\<close> and its loop over \<open>r.ChildResources()\<close>;
  \<open>fuel\<close> bounds the walks to the parents and the first argument the depth of the descent.
\<close>

fun checkNamesOfTheChildrenAreUniqueInTheURL ::
      "nat \<Rightarrow> nat \<Rightarrow> state \<Rightarrow> nat \<Rightarrow> nat \<Rightarrow> error option option"
  and checkChildrenLoop ::
      "nat \<Rightarrow> nat \<Rightarrow> state \<Rightarrow> nat \<Rightarrow> nat list \<Rightarrow> error option option" where
  "checkNamesOfTheChildrenAreUniqueInTheURL 0 fuel st rb r = None"
| "checkNamesOfTheChildrenAreUniqueInTheURL (Suc n) fuel st rb r =
     (if isHost (heap st rb) then Some None
      else checkChildrenLoop n fuel st rb (ChildResources st r))"
| "checkChildrenLoop n fuel st rb [] = Some None"
| "checkChildrenLoop n fuel st rb (chr # rest) =
     (case checkNamesAreUniqueInTheURL fuel st rb (tmpl (heap st chr)) of
        None \<Rightarrow> None
      | Some (Some e) \<Rightarrow> Some (Some e)
      | Some None \<Rightarrow>
          (case checkNamesOfTheChildrenAreUniqueInTheURL n fuel st rb chr of
             None \<Rightarrow> None
           | Some (Some e) \<Rightarrow> Some (Some e)
           | Some None \<Rightarrow> checkChildrenLoop n fuel st rb rest))"

text \<open>\<open>validate\<close>; the template of a responder is never nil in the model.\<close>

definition validate :: "nat \<Rightarrow> state \<Rightarrow> nat \<Rightarrow> Template \<Rightarrow> error option option" where
  "validate fuel st rb t = checkNamesAreUniqueInTheURL fuel st rb t"

section \<open>The responder tree: validation of a URL template\<close>

definition validateHostTmpl ::
  "nat \<Rightarrow> regexp \<Rightarrow> state \<Rightarrow> nat \<Rightarrow> string \<Rightarrow> error option option" where
  "validateHostTmpl fuel rx st rb tmplStr =
     (if tmplStr \<noteq> [] then
        (case (if isHost (heap st rb) then Some (Some rb) else HostOf fuel st rb) of
           None \<Rightarrow> None
         | Some None \<Rightarrow> Some (Some ErrConflictingHost)
         | Some (Some h) \<Rightarrow>
             (case TryToParse rx tmplStr of
                Inl e \<Rightarrow> Some (Some e)
              | Inr t \<Rightarrow>
                  if IsWildcard t then Some (Some ErrWildcardHostTemplate)
                  else
                    (case SimilarityWith (tmpl (heap st h)) (Some t) of
                       Inl e \<Rightarrow> Some (Some e)
                     | Inr sim \<Rightarrow> Some (Err sim))))
      else Some None)"

text \<open>
  The loop of \<open>validateURL\<close> over the resources in the path: each takes the next segment
  of the path template, which must parse to a template that is \<open>TheSame\<close> as its own. The
  result is the iterator at the exit.
\<close>

fun validateSegments ::
  "regexp \<Rightarrow> state \<Rightarrow> nat list \<Rightarrow> PathSegmentIterator \<Rightarrow> error + PathSegmentIterator" where
  "validateSegments rx st [] psi = Inr psi"
| "validateSegments rx st (r # rest) psi =
     (let (ps, psi1) = nextSegment psi in
        if ps = [] then Inl ErrConflictingPath
        else
          (case TryToParse rx ps of
             Inl e \<Rightarrow> Inl e
           | Inr t \<Rightarrow>
               (case SimilarityWith (tmpl (heap st r)) (Some t) of
                  Inl e \<Rightarrow> Inl e
                | Inr similarity \<Rightarrow>
                    if similarity \<noteq> TheSame then Inl ErrConflictingPathSegment
                    else validateSegments rx st rest psi1)))"

text \<open>\<open>validateURL\<close> returns the remaining path template or an error.\<close>

definition validateURL ::
  "nat \<Rightarrow> regexp \<Rightarrow> state \<Rightarrow> nat \<Rightarrow> string \<Rightarrow> string \<Rightarrow> (error + string) option" where
  "validateURL fuel rx st rb hostTmplStr pathTmplStr =
     (case resourcesInThePath fuel st rb of
        None \<Rightarrow> None
      | Some [] \<Rightarrow> Some (Inl Panic)
      | Some (topr # below) \<Rightarrow>
          (case validateHostTmpl fuel rx st topr hostTmplStr of
             None \<Rightarrow> None
           | Some (Some e) \<Rightarrow> Some (Inl e)
           | Some None \<Rightarrow>
               if isHost (heap st topr) \<and> below = [] \<and> (pathTmplStr = [] \<or> pathTmplStr = ''/'')
                 then Some (Inr [])
               else
                 let resources = (if isHost (heap st topr) then below else topr # below) in
                   (case validateSegments rx st resources (makePathSegmentIterator pathTmplStr) of
                      Inl e \<Rightarrow> Some (Inl e)
                    | Inr psi \<Rightarrow> Some (Inr (fst (remainingPath psi))))))"

section \<open>The responder tree: child lookup\<close>

text \<open>
  \<open>resourceWithTemplate\<close>. The pointer comparison \<open>stmpl == tmpl\<close> is the comparison of
  the two templates. The loop over the pattern resources stops at the first one whose
  template is not \<open>Different\<close>.
\<close>

definition similarityLookup :: "state \<Rightarrow> nat \<Rightarrow> Template \<Rightarrow> error + bool" where
  "similarityLookup st r t =
     (if tmpl (heap st r) = t then Inr True
      else
        (case SimilarityWith (tmpl (heap st r)) (Some t) of
           Inl e \<Rightarrow> Inl e
         | Inr sim \<Rightarrow>
             (case sim of
                DifferentValueNames \<Rightarrow> Inl ErrDifferentValueNames
              | DifferentNames \<Rightarrow> Inl ErrDifferentNames
              | TheSame \<Rightarrow> Inr True
              | Different \<Rightarrow> Inr False)))"

fun patternLookup :: "state \<Rightarrow> nat list \<Rightarrow> Template \<Rightarrow> error + nat option" where
  "patternLookup st [] t = Inr None"
| "patternLookup st (pr # rest) t =
     (case similarityLookup st pr t of
        Inl e \<Rightarrow> Inl e
      | Inr True \<Rightarrow> Inr (Some pr)
      | Inr False \<Rightarrow> patternLookup st rest t)"

definition resourceWithTemplate :: "state \<Rightarrow> nat \<Rightarrow> Template \<Rightarrow> error + nat option" where
  "resourceWithTemplate st rb t =
     (if IsStatic t then
        (case map_of (staticResources (heap st rb)) (UnescapedContent t) of
           None \<Rightarrow> Inr None
         | Some r \<Rightarrow>
             if tmpl (heap st r) = t then Inr (Some r)
             else if Name st r \<noteq> name t then Inl ErrDifferentNames
             else Inr (Some r))
      else if IsWildcard t then
        (case wildcardResource (heap st rb) of
           None \<Rightarrow> Inr None
         | Some w \<Rightarrow>
             (case similarityLookup st w t of
                Inl e \<Rightarrow> Inl e
              | Inr True \<Rightarrow> Inr (Some w)
              | Inr False \<Rightarrow> Inr None))
      else patternLookup st (patternResources (heap st rb)) t)"

text \<open>
  \<open>ChildResourceNamed\<close>: the wildcard resource first, then the pattern resources, then the
  static resources.
\<close>

fun firstNamed :: "state \<Rightarrow> string \<Rightarrow> nat list \<Rightarrow> nat option" where
  "firstNamed st n [] = None"
| "firstNamed st n (r # rest) = (if Name st r = n then Some r else firstNamed st n rest)"

definition ChildResourceNamed :: "state \<Rightarrow> nat \<Rightarrow> string \<Rightarrow> nat option" where
  "ChildResourceNamed st rb n =
     (if n = [] then None
      else
        (case wildcardResource (heap st rb) of
           Some w \<Rightarrow>
             if Name st w = n then Some w
             else
               (case firstNamed st n (patternResources (heap st rb)) of
                  Some r \<Rightarrow> Some r
                | None \<Rightarrow> firstNamed st n (map snd (staticResources (heap st rb))))
         | None \<Rightarrow>
             (case firstNamed st n (patternResources (heap st rb)) of
                Some r \<Rightarrow> Some r
              | None \<Rightarrow> firstNamed st n (map snd (staticResources (heap st rb))))))"

section \<open>The responder tree: registration\<close>

text \<open>
  The assignment \<open>m[k] = v\<close> to a Go map, on the association list that stands for it: the
  entry of an existing key is overwritten in place, a new key is added at the end.
\<close>

fun mapAssign :: "string \<Rightarrow> nat \<Rightarrow> (string \<times> nat) list \<Rightarrow> (string \<times> nat) list" where
  "mapAssign k v [] = [(k, v)]"
| "mapAssign k v (kv # m) = (if fst kv = k then (k, v) # m else kv # mapAssign k v m)"

text \<open>
  \<open>registerResource\<close> puts \<open>r\<close> into the bucket of \<open>rb\<close> that the template of \<open>r\<close> selects and
  then sets the parent of \<open>r\<close>; the bucket keeps \<open>r\<close> when \<open>setParent\<close> fails.
\<close>

definition registerResource :: "state \<Rightarrow> nat \<Rightarrow> nat \<Rightarrow> error option \<times> state" where
  "registerResource st rb r =
     (let t = tmpl (heap st r);
          st1 =
            (if IsStatic t then
               updateResponder st rb
                 (\<lambda>x. x\<lparr>staticResources := mapAssign (UnescapedContent t) r (staticResources x)\<rparr>)
             else if IsWildcard t then
               updateResponder st rb (\<lambda>x. x\<lparr>wildcardResource := Some r\<rparr>)
             else
               updateResponder st rb (\<lambda>x. x\<lparr>patternResources := patternResources x @ [r]\<rparr>))
      in setParent st1 r (Some (ResponderParent rb)))"

text \<open>
  The loop of \<open>replaceResource\<close> that looks for \<open>oldR\<close> among the pattern resources; the
  result is \<open>None\<close> when the index stays \<open>-1\<close>.
\<close>

fun indexOf :: "nat list \<Rightarrow> nat \<Rightarrow> nat option" where
  "indexOf [] x = None"
| "indexOf (y # ys) x = (if y = x then Some 0 else map_option Suc (indexOf ys x))"

text \<open>
  \<open>replaceResource\<close>. A nil map and an empty map are both the empty association list; no
  operation of the model leaves a map empty and not nil, and the assignment to a nil map
  panics. So does the index \<open>-1\<close>.
\<close>

definition replaceResource :: "state \<Rightarrow> nat \<Rightarrow> nat \<Rightarrow> nat \<Rightarrow> error option \<times> state" where
  "replaceResource st rb oldR newR =
     (let t = tmpl (heap st oldR);
          st1' =
            (if IsStatic t then
               (if staticResources (heap st rb) = [] then None
                else Some (updateResponder st rb
                  (\<lambda>x. x\<lparr>staticResources := mapAssign (UnescapedContent t) newR (staticResources x)\<rparr>)))
             else if IsWildcard t then
               Some (updateResponder st rb (\<lambda>x. x\<lparr>wildcardResource := Some newR\<rparr>))
             else
               (case indexOf (patternResources (heap st rb)) oldR of
                  None \<Rightarrow> None
                | Some idx \<Rightarrow>
                    Some (updateResponder st rb
                      (\<lambda>x. x\<lparr>patternResources := (patternResources x)[idx := newR]\<rparr>))))
      in case st1' of
           None \<Rightarrow> (Some Panic, st)
         | Some st1 \<Rightarrow>
             (case setParent st1 newR (Some (ResponderParent rb)) of
                (Some e, st2) \<Rightarrow> (Some e, st2)
              | (None, st2) \<Rightarrow> setParent st2 oldR None))"

text \<open>The three assignments of nil at the end of \<open>passChildResourcesTo\<close>.\<close>

definition clearChildResources :: "state \<Rightarrow> nat \<Rightarrow> state" where
  "clearChildResources st rb =
     updateResponder st rb
       (\<lambda>x. x\<lparr>staticResources := [], patternResources := [], wildcardResource := None\<rparr>)"

text \<open>
  \<open>keepResourceOrItsChildResources\<close>, \<open>passChildResourcesTo\<close> and the \<open>range\<close> loops of the
  latter (\<open>passLoop\<close>). The two methods call each other down the subtree of \<open>r\<close>; the first
  argument bounds the depth of the calls, and the result \<open>None\<close> means that it was reached.
  \<open>passChildResourcesTo\<close> reads the pattern resources of \<open>rb\<close> when the loop over the static
  resources is done, and the wildcard resource when the loop over the pattern resources
  is done, as the code does. The error message of the last case renders the template of
  \<open>rwt\<close>.
\<close>

fun keepResourceOrItsChildResources ::
      "nat \<Rightarrow> state \<Rightarrow> nat \<Rightarrow> nat \<Rightarrow> (error option \<times> state) option"
  and passChildResourcesTo ::
      "nat \<Rightarrow> state \<Rightarrow> nat \<Rightarrow> nat \<Rightarrow> (error option \<times> state) option"
  and passLoop ::
      "nat \<Rightarrow> state \<Rightarrow> nat list \<Rightarrow> nat \<Rightarrow> (error option \<times> state) option" where
  "keepResourceOrItsChildResources 0 st rb r = None"
| "keepResourceOrItsChildResources (Suc n) st rb r =
     (case resourceWithTemplate st rb (tmpl (heap st r)) of
        Inl e \<Rightarrow> Some (Some e, st)
      | Inr None \<Rightarrow> Some (registerResource st rb r)
      | Inr (Some rwt) \<Rightarrow>
          (let rcfs = configFlags st r in
             case configCompatibility st rwt (has rcfs flagSecure) (has rcfs flagTrailingSlash)
                    (Some rcfs) of
               (Some e, st1) \<Rightarrow> Some (Some e, st1)
             | (None, st1) \<Rightarrow>
                 if \<not> canHandleRequest st1 r then passChildResourcesTo n st1 r rwt
                 else if \<not> canHandleRequest st1 rwt then
                   (case passChildResourcesTo n st1 rwt r of
                      None \<Rightarrow> None
                    | Some (Some e, st2) \<Rightarrow> Some (Some e, st2)
                    | Some (None, st2) \<Rightarrow> Some (replaceResource st2 rb rwt r))
                 else
                   (case String (tmpl (heap st1 rwt)) of
                      Inl e \<Rightarrow> Some (Some e, st1)
                    | Inr s \<Rightarrow> Some (Some ErrDuplicateResourceTemplate, st1))))"
| "passChildResourcesTo n st rb r =
     (case passLoop n st (map snd (staticResources (heap st rb))) r of
        None \<Rightarrow> None
      | Some (Some e, st1) \<Rightarrow> Some (Some e, st1)
      | Some (None, st1) \<Rightarrow>
          (case passLoop n st1 (patternResources (heap st1 rb)) r of
             None \<Rightarrow> None
           | Some (Some e, st2) \<Rightarrow> Some (Some e, st2)
           | Some (None, st2) \<Rightarrow>
               (case wildcardResource (heap st2 rb) of
                  None \<Rightarrow> Some (None, clearChildResources st2 rb)
                | Some w \<Rightarrow>
                    (case keepResourceOrItsChildResources n st2 r w of
                       None \<Rightarrow> None
                     | Some (Some e, st3) \<Rightarrow> Some (Some e, st3)
                     | Some (None, st3) \<Rightarrow> Some (None, clearChildResources st3 rb)))))"
| "passLoop n st [] r = Some (None, st)"
| "passLoop n st (rr # rest) r =
     (case keepResourceOrItsChildResources n st r rr of
        None \<Rightarrow> None
      | Some (Some e, st1) \<Rightarrow> Some (Some e, st1)
      | Some (None, st1) \<Rightarrow> passLoop n st1 rest r)"

section \<open>The responder tree: path segment resources\<close>

text \<open>
  Modelled from the spec: the function \<open>newDummyResource\<close> is not in the source files.
  The spec calls a dummy node a placeholder with no handler, created during the
  resolution of a path: the model allocates a resource with the template, no parent, no
  child, no request handlers and no configuration flag.
\<close>

definition newDummyResource :: "state \<Rightarrow> Template \<Rightarrow> nat \<times> state" where
  "newDummyResource st t =
     (nxt st,
      st\<lparr>heap := (heap st)(nxt st :=
            \<lparr>isHost = False, tmpl = t, papa = None, staticResources = [],
             patternResources = [], wildcardResource = None, requestHandlerBase = None,
             cfs = 0, urlt = None\<rparr>),
         nxt := Suc (nxt st)\<rparr>)"

text \<open>
  The loop of \<open>segmentResources\<close> over the path segments, with the loop variables
  \<open>oldLast\<close>, \<open>newFirst\<close> and \<open>newLast\<close>. The result holds them, or the error, and the state.
\<close>

fun segmentLoop ::
  "nat \<Rightarrow> regexp \<Rightarrow> state \<Rightarrow> string list \<Rightarrow> nat \<Rightarrow> nat option \<Rightarrow> nat option \<Rightarrow>
     ((error + nat \<times> nat option \<times> nat option) \<times> state) option" where
  "segmentLoop fuel rx st [] oldLast newFirst newLast =
     Some (Inr (oldLast, newFirst, newLast), st)"
| "segmentLoop fuel rx st (ps # rest) oldLast newFirst newLast =
     (case TryToParse rx ps of
        Inl e \<Rightarrow> Some (Inl e, st)
      | Inr t \<Rightarrow>
          (case (if newFirst = None then resourceWithTemplate st oldLast t else Inr None) of
             Inl e \<Rightarrow> Some (Inl e, st)
           | Inr (Some r) \<Rightarrow> segmentLoop fuel rx st rest r newFirst newLast
           | Inr None \<Rightarrow>
               (case validate fuel st oldLast t of
                  None \<Rightarrow> None
                | Some (Some e) \<Rightarrow> Some (Inl e, st)
                | Some None \<Rightarrow>
                    (let (r, st1) = newDummyResource st t in
                       case newLast of
                         Some nl \<Rightarrow>
                           (case checkNamesAreUniqueInTheURL fuel st1 nl t of
                              None \<Rightarrow> None
                            | Some (Some e) \<Rightarrow> Some (Inl e, st1)
                            | Some None \<Rightarrow>
                                (case registerResource st1 nl r of
                                   (Some e, st2) \<Rightarrow> Some (Inl e, st2)
                                 | (None, st2) \<Rightarrow>
                                     segmentLoop fuel rx st2 rest oldLast newFirst (Some r)))
                       | None \<Rightarrow> segmentLoop fuel rx st1 rest oldLast (Some r) (Some r)))))"

definition segmentResources ::
  "nat \<Rightarrow> regexp \<Rightarrow> state \<Rightarrow> nat \<Rightarrow> string list \<Rightarrow>
     ((error + nat \<times> nat option \<times> nat option) \<times> state) option" where
  "segmentResources fuel rx st rb pathSegments = segmentLoop fuel rx st pathSegments rb None None"

text \<open>\<open>pathSegmentResources\<close>; the result adds \<open>tslash\<close> to the three resources.\<close>

definition pathSegmentResources ::
  "nat \<Rightarrow> regexp \<Rightarrow> state \<Rightarrow> nat \<Rightarrow> string \<Rightarrow>
     ((error + nat \<times> nat option \<times> nat option \<times> bool) \<times> state) option" where
  "pathSegmentResources fuel rx st rb pathTmplStr =
     (case splitPathSegments pathTmplStr of
        (pss, root, tslash, Some e) \<Rightarrow> Some (Inl e, st)
      | (pss, root, tslash, None) \<Rightarrow>
          if root then
            (if isHost (heap st rb) then Some (Inr (rb, None, None, tslash), st)
             else Some (Inl ErrNonRouterParent, st))
          else
            (case segmentResources fuel rx st rb pss of
               None \<Rightarrow> None
             | Some (Inl e, st1) \<Rightarrow> Some (Inl e, st1)
             | Some (Inr (oldLast, newFirst, newLast), st1) \<Rightarrow>
                 Some (Inr (oldLast, newFirst, newLast, tslash), st1)))"

text \<open>\<open>registerResourceUnder\<close>. \<open>newLast\<close> is not nil when \<open>newFirst\<close> is not.\<close>

definition registerResourceUnder ::
  "nat \<Rightarrow> regexp \<Rightarrow> state \<Rightarrow> nat \<Rightarrow> string \<Rightarrow> nat \<Rightarrow> (error option \<times> state) option" where
  "registerResourceUnder fuel rx st rb prefixPath r =
     (case pathSegmentResources fuel rx st rb prefixPath of
        None \<Rightarrow> None
      | Some (Inl e, st1) \<Rightarrow> Some (Some e, st1)
      | Some (Inr (oldLast, newFirst, newLast, tslash), st1) \<Rightarrow>
          (case newFirst of
             Some nf \<Rightarrow>
               (case newLast of
                  None \<Rightarrow> Some (Some Panic, st1)
                | Some nl \<Rightarrow>
                    (case checkNamesOfTheChildrenAreUniqueInTheURL fuel fuel st1 nl r of
                       None \<Rightarrow> None
                     | Some (Some e) \<Rightarrow> Some (Some e, st1)
                     | Some None \<Rightarrow>
                         if ChildResourceNamed st1 oldLast (Name st1 nf) \<noteq> None
                           then Some (Some ErrDuplicateNameAmongSiblings, st1)
                         else
                           (case registerResource st1 nl r of
                              (Some e, st2) \<Rightarrow> Some (Some e, st2)
                            | (None, st2) \<Rightarrow> Some (registerResource st2 oldLast nf))))
           | None \<Rightarrow>
               (case checkNamesOfTheChildrenAreUniqueInTheURL fuel fuel st1 oldLast r of
                  None \<Rightarrow> None
                | Some (Some e) \<Rightarrow> Some (Some e, st1)
                | Some None \<Rightarrow> keepResourceOrItsChildResources fuel st1 oldLast r)))"

section \<open>The responder tree: the registration operations\<close>

text \<open>
  The part that \<open>Resource\<close> and \<open>ResourceUsingConfig\<close> share, from the call of
  \<open>pathSegmentResources\<close> on; \<open>c\<close> is the last argument of \<open>configCompatibility\<close>. The type
  assertion \<open>oldLast.(*Resource)\<close> panics on a host.
\<close>

definition resourceAt ::
  "nat \<Rightarrow> regexp \<Rightarrow> state \<Rightarrow> nat \<Rightarrow> string \<Rightarrow> bool \<Rightarrow> bool \<Rightarrow> ConfigFlags option \<Rightarrow>
     ((error + nat) \<times> state) option" where
  "resourceAt fuel rx st rb path secure tslash c =
     (case pathSegmentResources fuel rx st rb path of
        None \<Rightarrow> None
      | Some (Inl e, st1) \<Rightarrow> Some (Inl e, st1)
      | Some (Inr (oldLast, newFirst, newLast, ts), st1) \<Rightarrow>
          (case newFirst of
             Some nf \<Rightarrow>
               (case newLast of
                  None \<Rightarrow> Some (Inl Panic, st1)
                | Some nl \<Rightarrow>
                    (case configCompatibility st1 nl secure tslash c of
                       (Some e, st2) \<Rightarrow> Some (Inl e, st2)
                     | (None, st2) \<Rightarrow>
                         if ChildResourceNamed st2 oldLast (Name st2 nf) \<noteq> None
                           then Some (Inl ErrDuplicateNameAmongSiblings, st2)
                         else
                           (case registerResource st2 oldLast nf of
                              (Some e, st3) \<Rightarrow> Some (Inl e, st3)
                            | (None, st3) \<Rightarrow> Some (Inr nl, st3))))
           | None \<Rightarrow>
               (case configCompatibility st1 oldLast secure tslash c of
                  (Some e, st2) \<Rightarrow> Some (Inl e, st2)
                | (None, st2) \<Rightarrow>
                    if isHost (heap st2 oldLast) then Some (Inl Panic, st2)
                    else Some (Inr oldLast, st2))))"

definition Resource ::
  "nat \<Rightarrow> regexp \<Rightarrow> state \<Rightarrow> nat \<Rightarrow> string \<Rightarrow> ((error + nat) \<times> state) option" where
  "Resource fuel rx st rb path0 =
     (case sp_err (splitHostAndPath path0) of
        Some e \<Rightarrow> Some (Inl e, st)
      | None \<Rightarrow>
          let hTmplStr = sp_host (splitHostAndPath path0);
              path = sp_path (splitHostAndPath path0);
              secure = sp_secure (splitHostAndPath path0);
              tslash = sp_tslash (splitHostAndPath path0)
          in if hTmplStr \<noteq> [] then Some (Inl ErrNonRouterParent, st)
             else if path = [] then Some (Inl ErrEmptyPathTemplate, st)
             else
               resourceAt fuel rx st rb (if hd path \<noteq> CHR ''/'' then CHR ''/'' # path else path)
                 secure tslash None)"

definition ResourceUsingConfig ::
  "nat \<Rightarrow> regexp \<Rightarrow> state \<Rightarrow> nat \<Rightarrow> string \<Rightarrow> Config \<Rightarrow> ((error + nat) \<times> state) option" where
  "ResourceUsingConfig fuel rx st rb pathTmplStr0 config =
     (case sp_err (splitHostAndPath pathTmplStr0) of
        Some e \<Rightarrow> Some (Inl e, st)
      | None \<Rightarrow>
          let hTmplStr = sp_host (splitHostAndPath pathTmplStr0);
              pathTmplStr = sp_path (splitHostAndPath pathTmplStr0);
              secure = sp_secure (splitHostAndPath pathTmplStr0);
              tslash = sp_tslash (splitHostAndPath pathTmplStr0)
          in if hTmplStr \<noteq> [] then Some (Inl ErrNonRouterParent, st)
             else if pathTmplStr = [] then Some (Inl ErrEmptyPathTemplate, st)
             else if RedirectInsecureRequest config \<and> \<not> secure
               then Some (Inl ErrConflictingSecurity, st)
             else
               resourceAt fuel rx st rb
                 (if hd pathTmplStr \<noteq> CHR ''/'' then CHR ''/'' # pathTmplStr else pathTmplStr)
                 secure tslash (Some (asFlags config)))"

text \<open>
  The checks that \<open>RegisterResource\<close> and \<open>RegisterResourceUnder\<close> make on their argument
  before anything else; \<open>Some None\<close> when they all pass.
\<close>

definition argumentChecks :: "nat \<Rightarrow> state \<Rightarrow> nat \<Rightarrow> nat \<Rightarrow> error option option" where
  "argumentChecks fuel st rb r =
     (if IsRoot st r then Some (Some ErrNonRouterParent)
      else if parent st r \<noteq> None then Some (Some ErrRegisteredResource)
      else
        (case validate fuel st rb (tmpl (heap st r)) of
           None \<Rightarrow> None
         | Some (Some e) \<Rightarrow> Some (Some e)
         | Some None \<Rightarrow> checkNamesOfTheChildrenAreUniqueInTheURL fuel fuel st rb r))"

text \<open>
  \<open>RegisterResource\<close>; the argument is \<open>None\<close> for a nil \<open>*Resource\<close>. The field \<open>urlt\<close> of
  the resource is what its method \<open>urlTmpl\<close> returns.
\<close>

definition RegisterResource ::
  "nat \<Rightarrow> regexp \<Rightarrow> state \<Rightarrow> nat \<Rightarrow> nat option \<Rightarrow> (error option \<times> state) option" where
  "RegisterResource fuel rx st rb r' =
     (case r' of
        None \<Rightarrow> Some (Some ErrNilArgument, st)
      | Some r \<Rightarrow>
          (case argumentChecks fuel st rb r of
             None \<Rightarrow> None
           | Some (Some e) \<Rightarrow> Some (Some e, st)
           | Some None \<Rightarrow>
               (case urlt (heap st r) of
                  None \<Rightarrow> keepResourceOrItsChildResources fuel st rb r
                | Some u \<Rightarrow>
                    (case validateURL fuel rx st rb (Host u) (PrefixPath u) of
                       None \<Rightarrow> None
                     | Some (Inl e) \<Rightarrow> Some (Some e, st)
                     | Some (Inr rppss) \<Rightarrow>
                         if rppss \<noteq> [] then registerResourceUnder fuel rx st rb rppss r
                         else keepResourceOrItsChildResources fuel st rb r))))"

text \<open>
  The check of the URL template of the resource in \<open>RegisterResourceUnder\<close>; the result
  is the error, and \<open>prefixPath\<close>, which loses its trailing slash on the way.
\<close>

definition urlTmplCheck ::
  "nat \<Rightarrow> regexp \<Rightarrow> state \<Rightarrow> nat \<Rightarrow> string \<Rightarrow> URLTmpl option \<Rightarrow> (error option \<times> string) option" where
  "urlTmplCheck fuel rx st rb prefixPath u' =
     (case u' of
        None \<Rightarrow> Some (None, prefixPath)
      | Some u \<Rightarrow>
          if PrefixPath u \<noteq> [] then
            (let pp1 = (if prefixPath \<noteq> [] \<and> last prefixPath = CHR ''/''
                        then butlast prefixPath else prefixPath)
             in if length pp1 > length (PrefixPath u) then Some (Some ErrConflictingPath, pp1)
                else
                  let pp = (if HasSuffix (PrefixPath u) pp1
                            then take (length (PrefixPath u) - length pp1) (PrefixPath u)
                            else PrefixPath u)
                  in (case validateURL fuel rx st rb (Host u) pp of
                        None \<Rightarrow> None
                      | Some (Inl e) \<Rightarrow> Some (Some e, pp1)
                      | Some (Inr rppss) \<Rightarrow>
                          if rppss \<noteq> [] then Some (Some ErrConflictingPath, pp1)
                          else Some (None, pp1)))
          else
            (case validateHostTmpl fuel rx st rb (Host u) of
               None \<Rightarrow> None
             | Some e \<Rightarrow> Some (e, prefixPath)))"

definition RegisterResourceUnder ::
  "nat \<Rightarrow> regexp \<Rightarrow> state \<Rightarrow> nat \<Rightarrow> string \<Rightarrow> nat option \<Rightarrow> (error option \<times> state) option" where
  "RegisterResourceUnder fuel rx st rb prefixPath0 r' =
     (case r' of
        None \<Rightarrow> Some (Some ErrNilArgument, st)
      | Some r \<Rightarrow>
          (case argumentChecks fuel st rb r of
             None \<Rightarrow> None
           | Some (Some e) \<Rightarrow> Some (Some e, st)
           | Some None \<Rightarrow>
               if prefixPath0 = ''/'' \<and> \<not> isHost (heap st rb) then Some (Some ErrNonRouterParent, st)
               else
                 let prefixPath1 = (if prefixPath0 = ''/'' then [] else prefixPath0);
                     prefixPath2 = (if prefixPath1 \<noteq> [] \<and> hd prefixPath1 \<noteq> CHR ''/''
                                    then CHR ''/'' # prefixPath1 else prefixPath1)
                 in (case urlTmplCheck fuel rx st rb prefixPath2 (urlt (heap st r)) of
                       None \<Rightarrow> None
                     | Some (Some e, prefixPath) \<Rightarrow> Some (Some e, st)
                     | Some (None, prefixPath) \<Rightarrow>
                         if prefixPath \<noteq> [] then registerResourceUnder fuel rx st rb prefixPath r
                         else keepResourceOrItsChildResources fuel st rb r)))"

section \<open>Example trees\<close>

text \<open>
  The templates that \<open>TryToParse\<close> returns for \<open>p\<close>, \<open>a\<close>, \<open>c\<close> and \<open>{w}\<close>, and a resource with
  a template, a parent, child resources, a number of HTTP method handlers (\<open>None\<close> for a
  nil \<open>_RequestHandlerBase\<close>) and the flag \<open>flagActive\<close>.
\<close>

definition tmpl_static :: "string \<Rightarrow> Template" where
  "tmpl_static s = \<lparr>name = [], slices = [staticSliceOf s], wildCardIdx = -1\<rparr>"

definition tmpl_w :: Template where
  "tmpl_w =
     \<lparr>name = ''w'', slices = [dynamicSliceOf \<lparr>vp_name = ''w'', vp_re = None\<rparr>], wildCardIdx = 0\<rparr>"

definition exResource ::
  "Template \<Rightarrow> Parent option \<Rightarrow> (string \<times> nat) list \<Rightarrow> nat option \<Rightarrow> nat option \<Rightarrow> Responder" where
  "exResource t p sts w h =
     \<lparr>isHost = False, tmpl = t, papa = p, staticResources = sts, patternResources = [],
      wildcardResource = w, requestHandlerBase = h, cfs = flagActive, urlt = None\<rparr>"

text \<open>
  \<open>exTree\<close>: the resource 0 (\<open>p\<close>) has the child 1 (\<open>a\<close>, no handler), which has the child 2
  (\<open>{w}\<close>, one handler). The resource 3 (\<open>a\<close>, no handler) is not registered; its children
  are 4 (\<open>c\<close>) and 5 (\<open>{w}\<close>), with one handler each.
\<close>

definition exTree :: state where
  "exTree =
     \<lparr>heap = (\<lambda>x. exResource (tmpl_static ''z'') None [] None None)
        (0 := exResource (tmpl_static ''p'') None [(''a'', 1)] None None,
         1 := exResource (tmpl_static ''a'') (Some (ResponderParent 0)) [] (Some 2) None,
         2 := exResource tmpl_w (Some (ResponderParent 1)) [] None (Some 1),
         3 := exResource (tmpl_static ''a'') None [(''c'', 4)] (Some 5) None,
         4 := exResource (tmpl_static ''c'') (Some (ResponderParent 3)) [] None (Some 1),
         5 := exResource tmpl_w (Some (ResponderParent 3)) [] None (Some 1)),
      nxt = 6\<rparr>"




text \<open>\<open>exDummy\<close> is \<open>exTree\<close> with a new dummy resource, the resource 6.\<close>

definition exDummy :: state where
  "exDummy = snd (newDummyResource exTree (tmpl_static ''c''))"

text \<open>
  \<open>exNamed\<close>: the resource 0 has the wildcard child 1 (\<open>{w}\<close>, whose name is \<open>w\<close>), the
  pattern children 2 (\<open>$n:a{x:ab}\<close>) and 3 (\<open>$s:a{y:ab}\<close>), and the static children 4
  (\<open>$s:b\<close>), 5 (\<open>$w:c\<close>) and 6 (\<open>d\<close>, which has no name). The names \<open>s\<close> and \<open>w\<close> occur
  twice, in different buckets.
\<close>

definition tmpl_named :: "string \<Rightarrow> string \<Rightarrow> Template" where
  "tmpl_named n s = \<lparr>name = n, slices = [staticSliceOf s], wildCardIdx = -1\<rparr>"

definition tmpl_pattern :: "string \<Rightarrow> string \<Rightarrow> Template" where
  "tmpl_pattern n v =
     \<lparr>name = n,
      slices = [staticSliceOf ''a'', dynamicSliceOf \<lparr>vp_name = v, vp_re = Some ''^ab''\<rparr>],
      wildCardIdx = -1\<rparr>"

definition exNamed :: state where
  "exNamed =
     \<lparr>heap = (\<lambda>x. exResource (tmpl_static ''z'') None [] None None)
        (0 := (exResource (tmpl_static ''p'') None [(''b'', 4), (''c'', 5), (''d'', 6)] (Some 1) None)
                \<lparr>patternResources := [2, 3]\<rparr>,
         1 := exResource tmpl_w (Some (ResponderParent 0)) [] None (Some 1),
         2 := exResource (tmpl_pattern ''n'' ''x'') (Some (ResponderParent 0)) [] None (Some 1),
         3 := exResource (tmpl_pattern ''s'' ''y'') (Some (ResponderParent 0)) [] None (Some 1),
         4 := exResource (tmpl_named ''s'' ''b'') (Some (ResponderParent 0)) [] None (Some 1),
         5 := exResource (tmpl_named ''w'' ''c'') (Some (ResponderParent 0)) [] None (Some 1),
         6 := exResource (tmpl_static ''d'') (Some (ResponderParent 0)) [] None (Some 1)),
      nxt = 7\<rparr>"

section \<open>Subtrees of the responder tree\<close>







section \<open>Properties of \<open>splitHostAndPath\<close>\<close>


lemma IndexByte_neg_iff: "IndexByte xs c < 0 \<longleftrightarrow> c \<notin> set xs"
  by (induction xs) (auto simp: Let_def)

lemma IndexByte_append: "c \<notin> set h \<Longrightarrow> IndexByte (h @ c # r) c = int (length h)"
  by (induction h) (auto simp: Let_def)

text \<open>
  \<open>splitRest\<close> is the part of \<open>splitHostAndPath\<close> that follows the trimming of the scheme;
  it is used in the proofs only.
\<close>

definition splitRest :: "bool \<Rightarrow> bool \<Rightarrow> string \<Rightarrow> string \<times> string \<times> bool \<times> bool \<times> error option" where
  "splitRest absolute secure u2 =
     (let idx = IndexByte u2 (CHR ''/'') in
         if absolute \<and> idx < 0 then (u2, [], secure, False, None)
         else
           let hostTmplStr = (if absolute then take (nat idx) u2 else []);
               pathTmplStr = (if absolute then drop (nat idx) u2 else u2)
           in
             if hostTmplStr \<noteq> [] \<and> pathTmplStr = ''/'' then
               (hostTmplStr, [], secure, True, None)
             else if hostTmplStr = [] \<and> pathTmplStr = [] then
               (hostTmplStr, pathTmplStr, False, False, Some ErrInvalidTemplate)
             else
               let lastIdx = int (length pathTmplStr) - 1 in
                 if lastIdx > 0 \<and> pathTmplStr ! nat lastIdx = CHR ''/'' then
                   (hostTmplStr, take (nat lastIdx) pathTmplStr, secure, True, None)
                 else (hostTmplStr, pathTmplStr, secure, False, None))"

lemma not_https_http: "\<not> prefix ''https://'' (''http://'' @ r)"
  by simp

lemma split_https: "splitHostAndPath (''https://'' @ r) = splitRest True True r"
proof -
  have t: "TrimPrefix (''https://'' @ r) ''https://'' = r"
    unfolding TrimPrefix_def by simp
  have l: "length r < length (''https://'' @ r)" by simp
  have ne: "''https://'' @ r \<noteq> []" by simp
  show ?thesis
    unfolding splitHostAndPath_def splitRest_def Let_def t
    using l ne by (simp only: if_True if_False simp_thms)
qed

lemma split_http: "splitHostAndPath (''http://'' @ r) = splitRest True False r"
proof -
  have t1: "TrimPrefix (''http://'' @ r) ''https://'' = ''http://'' @ r"
    unfolding TrimPrefix_def using not_https_http by (simp only: if_False)
  have t2: "TrimPrefix (''http://'' @ r) ''http://'' = r"
    unfolding TrimPrefix_def by simp
  have l: "length r < length (''http://'' @ r)" by simp
  have nl: "\<not> length (''http://'' @ r) < length (''http://'' @ r)" by simp
  have ne: "''http://'' @ r \<noteq> []" by simp
  show ?thesis
    unfolding splitHostAndPath_def splitRest_def Let_def t1 t2
    using l nl ne by (simp only: if_True if_False simp_thms)
qed

lemma split_rel: 
  assumes "s \<noteq> []" "\<not> prefix ''https://'' s" "\<not> prefix ''http://'' s"
  shows "splitHostAndPath s = splitRest False False s"
proof -
  have t1: "TrimPrefix s ''https://'' = s" unfolding TrimPrefix_def using assms by (simp only: if_False)
  have t2: "TrimPrefix s ''http://'' = s" unfolding TrimPrefix_def using assms by (simp only: if_False)
  have nl: "\<not> length s < length s" by simp
  show ?thesis
    unfolding splitHostAndPath_def splitRest_def Let_def t1 t2
    using nl assms(1) by (simp only: if_True if_False simp_thms)
qed

lemma splitRest_host_rel: "fst (splitRest False b u) = []"
  by (simp add: splitRest_def Let_def)

lemma splitRest_secure: "a \<Longrightarrow> fst (snd (snd (splitRest a b u))) = b"
  by (auto simp: splitRest_def Let_def IndexByte_neg_iff)

lemma splitRest_host_slash:
  assumes "h \<noteq> []" "CHR ''/'' \<notin> set h"
  shows "splitRest True b (h @ ''/'') = (h, [], b, True, None)"
  using assms by (simp add: splitRest_def Let_def IndexByte_append)

lemma splitRest_strip_abs:
  assumes "CHR ''/'' \<notin> set h" "length p > 1" "hd p = CHR ''/''" "last p = CHR ''/''"
  shows "splitRest True b (h @ p) = (h, butlast p, b, True, None)"
proof -
  obtain q where p: "p = CHR ''/'' # q" "q \<noteq> []"
    using assms(2,3) by (cases p) auto
  have lq: "q ! (length q - Suc 0) = CHR ''/''"
    using assms(4) p by (simp add: last_conv_nth)
  show ?thesis
    using assms(1) p lq
    by (simp add: splitRest_def Let_def IndexByte_append butlast_conv_take)
qed

lemma splitRest_strip_rel:
  assumes "length p > 1" "last p = CHR ''/''"
  shows "splitRest False b p = ([], butlast p, b, True, None)"
proof -
  have ne: "p \<noteq> []" using assms(1) by auto
  have lq: "p ! (length p - Suc 0) = CHR ''/''"
    using assms(2) ne by (simp add: last_conv_nth)
  show ?thesis
    using assms(1) ne lq
    by (simp add: splitRest_def Let_def butlast_conv_take nat_diff_distrib)
qed

lemma sp_host_abs:
  assumes "sp_host (splitHostAndPath s) \<noteq> []"
  shows "(prefix ''https://'' s \<or> prefix ''http://'' s) \<and>
         sp_secure (splitHostAndPath s) = prefix ''https://'' s"
proof (cases "prefix ''https://'' s")
  case True
  then obtain r where "s = ''https://'' @ r" by (auto simp: prefix_def)
  then show ?thesis using True
    by (simp only: split_https sp_secure_def splitRest_secure simp_thms)
next
  case nhs: False
  show ?thesis
  proof (cases "prefix ''http://'' s")
    case True
    then obtain r where "s = ''http://'' @ r" by (auto simp: prefix_def)
    then show ?thesis using True nhs
      by (simp only: split_http sp_secure_def splitRest_secure simp_thms)
  next
    case False
    have "s \<noteq> []" using assms by (auto simp: splitHostAndPath_def sp_host_def)
    then have "splitHostAndPath s = splitRest False False s"
      using nhs False by (rule split_rel)
    then show ?thesis using assms by (simp add: sp_host_def splitRest_host_rel)
  qed
qed

text \<open>
  Claim C9. \<open>splitHostAndPath\<close> returns the invalid-template error for the empty string; a
  non-empty host template is returned only for inputs starting with \<open>https://\<close> or
  \<open>http://\<close>, and then \<open>secure\<close> is true exactly for the \<open>https://\<close> prefix; a non-empty
  host followed by exactly \<open>/\<close> gives \<open>tslash = true\<close> and an empty path template; and a
  path template longer than one character that ends in \<open>/\<close> is returned without that final
  slash, with \<open>tslash = true\<close> (after a scheme and host, and for a path-only template).
\<close>

theorem splitHostAndPath_rules:
  fixes s h p sch :: string
  shows "sp_err (splitHostAndPath []) = Some ErrInvalidTemplate
    \<and> (sp_host (splitHostAndPath s) \<noteq> [] \<longrightarrow>
         (prefix ''https://'' s \<or> prefix ''http://'' s) \<and>
         sp_secure (splitHostAndPath s) = prefix ''https://'' s)
    \<and> ((sch = ''https://'' \<or> sch = ''http://'') \<and> h \<noteq> [] \<and> CHR ''/'' \<notin> set h \<longrightarrow>
         splitHostAndPath (sch @ h @ ''/'') = (h, [], sch = ''https://'', True, None))
    \<and> ((sch = ''https://'' \<or> sch = ''http://'') \<and> CHR ''/'' \<notin> set h \<and>
          length p > 1 \<and> hd p = CHR ''/'' \<and> last p = CHR ''/'' \<longrightarrow>
         splitHostAndPath (sch @ h @ p) = (h, butlast p, sch = ''https://'', True, None))
    \<and> (\<not> prefix ''https://'' s \<and> \<not> prefix ''http://'' s \<and> length s > 1 \<and> last s = CHR ''/'' \<longrightarrow>
         splitHostAndPath s = ([], butlast s, False, True, None))"
proof (intro conjI impI)
  show "sp_err (splitHostAndPath []) = Some ErrInvalidTemplate"
    by (simp add: splitHostAndPath_def sp_err_def)
next
  assume "sp_host (splitHostAndPath s) \<noteq> []"
  from sp_host_abs[OF this]
  show "prefix ''https://'' s \<or> prefix ''http://'' s"
    and "sp_secure (splitHostAndPath s) = prefix ''https://'' s" by blast+
next
  assume a: "(sch = ''https://'' \<or> sch = ''http://'') \<and> h \<noteq> [] \<and> CHR ''/'' \<notin> set h"
  then have hs: "h \<noteq> []" "CHR ''/'' \<notin> set h" by blast+
  from a have "sch = ''https://'' \<or> sch = ''http://''" by blast
  then show "splitHostAndPath (sch @ h @ ''/'') = (h, [], sch = ''https://'', True, None)"
  proof
    assume "sch = ''https://''"
    then show ?thesis using split_https[of "h @ ''/''"] splitRest_host_slash[OF hs, of True] by simp
  next
    assume "sch = ''http://''"
    then show ?thesis using split_http[of "h @ ''/''"] splitRest_host_slash[OF hs, of False] by simp
  qed
next
  assume a: "(sch = ''https://'' \<or> sch = ''http://'') \<and> CHR ''/'' \<notin> set h \<and>
          length p > 1 \<and> hd p = CHR ''/'' \<and> last p = CHR ''/''"
  then have hs: "CHR ''/'' \<notin> set h" "length p > 1" "hd p = CHR ''/''" "last p = CHR ''/''" by blast+
  from a have "sch = ''https://'' \<or> sch = ''http://''" by blast
  then show "splitHostAndPath (sch @ h @ p) = (h, butlast p, sch = ''https://'', True, None)"
  proof
    assume "sch = ''https://''"
    then show ?thesis using split_https[of "h @ p"] splitRest_strip_abs[OF hs, of True] by simp
  next
    assume "sch = ''http://''"
    then show ?thesis using split_http[of "h @ p"] splitRest_strip_abs[OF hs, of False] by simp
  qed
next
  assume a: "\<not> prefix ''https://'' s \<and> \<not> prefix ''http://'' s \<and> length s > 1 \<and> last s = CHR ''/''"
  then have ne: "s \<noteq> []" by auto
  have "splitHostAndPath s = splitRest False False s"
    using split_rel[OF ne] a by blast
  then show "splitHostAndPath s = ([], butlast s, False, True, None)"
    using splitRest_strip_rel[of s False] a by simp
qed

theorem splitHostAndPath_rules_witness:
  "sp_host (splitHostAndPath ''https://a.b/x/y/'') \<noteq> []
   \<and> sp_secure (splitHostAndPath ''https://a.b/x/y/'')
   \<and> splitHostAndPath ''https://a.b/'' = (''a.b'', [], True, True, None)
   \<and> splitHostAndPath ''https://a.b/x/y/'' = (''a.b'', ''/x/y'', True, True, None)
   \<and> splitHostAndPath ''http://a.b/x/y/'' = (''a.b'', ''/x/y'', False, True, None)
   \<and> splitHostAndPath ''x/y/'' = ([], ''x/y'', False, True, None)"
proof -
  have e: "splitHostAndPath ''https://a.b/x/y/'' = (''a.b'', ''/x/y'', True, True, None)"
    using splitHostAndPath_rules[of "''https://a.b/x/y/''" "''https://''" "''a.b''" "''/x/y/''"]
    by simp
  have e2: "splitHostAndPath ''http://a.b/x/y/'' = (''a.b'', ''/x/y'', False, True, None)"
    using splitHostAndPath_rules[of "''x/y/''" "''http://''" "''a.b''" "''/x/y/''"]
    by simp
  have e3: "splitHostAndPath ''x/y/'' = ([], ''x/y'', False, True, None)"
    using splitHostAndPath_rules[of "''x/y/''" "''http://''" "''a.b''" "''/x/y/''"]
    by simp
  have e4: "splitHostAndPath ''https://a.b/'' = (''a.b'', [], True, True, None)"
    using splitHostAndPath_rules[of "''x/y/''" "''https://''" "''a.b''" "''/x/y/''"]
    by simp
  have h: "sp_host (splitHostAndPath ''https://a.b/x/y/'') \<noteq> []"
    by (simp add: e sp_host_def)
  have s: "sp_secure (splitHostAndPath ''https://a.b/x/y/'')"
    by (simp add: e sp_secure_def)
  show ?thesis using e e2 e3 e4 h s by simp
qed



section \<open>Properties of \<open>Match\<close>\<close>


lemma matchLeft_suffix:
  "matchLeft rx t is s v = Inr (Some (s', v')) \<Longrightarrow> suffix s' s"
proof (induction "is" arbitrary: s v)
  case Nil
  then show ?case by simp
next
  case (Cons i "is")
  from Cons.prems show ?case
    by (auto simp: Let_def split: if_splits option.splits
             dest!: Cons.IH intro: suffix_order.trans suffix_drop)
qed

lemma matchRight_prefix:
  "matchRight rx t is s v = Inr (Some (s', v')) \<Longrightarrow> prefix s' s"
proof (induction "is" arbitrary: s v)
  case Nil
  then show ?case by simp
next
  case (Cons i "is")
  from Cons.prems show ?case
    by (auto simp: Let_def split: if_splits option.splits list.splits
             dest!: Cons.IH intro: prefix_order.trans take_is_prefix)
qed

text \<open>
  Claim C1, as the code has it. For a template with a wildcard slice and at least one
  other slice, \<open>Match\<close> succeeds exactly when the slices left of the wildcard are consumed
  from the start of the string and the slices right of it from the end of what is left;
  the remainder \<open>rem\<close> lies between the two consumed parts. A non-empty remainder is
  recorded under the wildcard's value name; with an empty remainder the match succeeds
  all the same and the values are those of the two passes.
\<close>

theorem Match_wildcard_remainder:
  assumes "\<not> IsStatic t" and "\<not> IsWildcard t"
    and "wildCardIdx t = int k" and "k < length (slices t)"
    and "valuePattern (slices t ! k) = Some vp"
  shows "Match rx t s = Inr (True, Some vals) \<longleftrightarrow>
    (\<exists>l rem r v1 v2.
       s = l @ rem @ r \<and>
       matchLeft rx t [0..<k] s Map.empty = Inr (Some (rem @ r, v1)) \<and>
       matchRight rx t (rev [k + 1..<length (slices t)]) (rem @ r) v1 = Inr (Some (rem, v2)) \<and>
       vals = (if rem = [] then v2 else v2(vp_name vp \<mapsto> rem)))"
proof
  assume m: "Match rx t s = Inr (True, Some vals)"
  from m assms obtain s1 v1 where
    l: "matchLeft rx t [0..<k] s Map.empty = Inr (Some (s1, v1))"
    by (auto simp: Match_def Let_def split: sum.splits option.splits if_splits)
  from m assms l obtain rem v2 where
    r: "matchRight rx t (rev [k + 1..<length (slices t)]) s1 v1 = Inr (Some (rem, v2))"
    by (auto simp: Match_def Let_def split: sum.splits option.splits if_splits)
  from m assms l r have v: "vals = (if rem = [] then v2 else v2(vp_name vp \<mapsto> rem))"
    by (auto simp: Match_def Let_def split: if_splits)
  from matchLeft_suffix[OF l] obtain l' where l': "s = l' @ s1" by (auto simp: suffix_def)
  from matchRight_prefix[OF r] obtain r' where r': "s1 = rem @ r'" by (auto simp: prefix_def)
  show "\<exists>l rem r v1 v2.
       s = l @ rem @ r \<and>
       matchLeft rx t [0..<k] s Map.empty = Inr (Some (rem @ r, v1)) \<and>
       matchRight rx t (rev [k + 1..<length (slices t)]) (rem @ r) v1 = Inr (Some (rem, v2)) \<and>
       vals = (if rem = [] then v2 else v2(vp_name vp \<mapsto> rem))"
    using l r v l' r' by blast
next
  assume "\<exists>l rem r v1 v2.
       s = l @ rem @ r \<and>
       matchLeft rx t [0..<k] s Map.empty = Inr (Some (rem @ r, v1)) \<and>
       matchRight rx t (rev [k + 1..<length (slices t)]) (rem @ r) v1 = Inr (Some (rem, v2)) \<and>
       vals = (if rem = [] then v2 else v2(vp_name vp \<mapsto> rem))"
  then show "Match rx t s = Inr (True, Some vals)"
    using assms by (auto simp: Match_def Let_def)
qed

theorem Match_wildcard_remainder_witness:
  "\<not> IsStatic tmpl_aw \<and> \<not> IsWildcard tmpl_aw \<and> wildCardIdx tmpl_aw = int 1 \<and>
   1 < length (slices tmpl_aw) \<and>
   valuePattern (slices tmpl_aw ! 1) = Some \<lparr>vp_name = ''w'', vp_re = None\<rparr> \<and>
   Match litRegexp tmpl_aw ''abc'' = Inr (True, Some (Map.empty(''w'' \<mapsto> ''bc'')))"
proof -
  have h1: "\<not> IsStatic tmpl_aw" by (simp add: IsStatic_def tmpl_aw_def)
  have h2: "\<not> IsWildcard tmpl_aw" by (simp add: IsWildcard_def tmpl_aw_def)
  have h3: "wildCardIdx tmpl_aw = int 1" by (simp add: tmpl_aw_def)
  have h4: "1 < length (slices tmpl_aw)" by (simp add: tmpl_aw_def)
  have h5: "valuePattern (slices tmpl_aw ! 1) = Some \<lparr>vp_name = ''w'', vp_re = None\<rparr>"
    by (simp add: tmpl_aw_def dynamicSliceOf_def)
  have l: "matchLeft litRegexp tmpl_aw [0..<1] ''abc'' Map.empty = Inr (Some (''bc'' @ [], Map.empty))"
    by (simp add: tmpl_aw_def staticSliceOf_def HasPrefix_def)
  have r: "matchRight litRegexp tmpl_aw (rev [1 + 1..<length (slices tmpl_aw)]) (''bc'' @ []) Map.empty
            = Inr (Some (''bc'', Map.empty))"
    by (simp add: tmpl_aw_def)
  have "Match litRegexp tmpl_aw ''abc'' = Inr (True, Some (Map.empty(''w'' \<mapsto> ''bc'')))"
    apply (rule Match_wildcard_remainder[OF h1 h2 h3 h4 h5, THEN iffD2])
    apply (rule exI[of _ "''a''"], rule exI[of _ "''bc''"], rule exI[of _ "[]"],
           rule exI[of _ Map.empty], rule exI[of _ Map.empty])
    using l r by simp
  then show ?thesis using h1 h2 h3 h4 h5 by simp
qed

text \<open>
  Claim C1 as stated requires a non-empty remainder for the wildcard. The template
  \<open>a{w}\<close> matches the string \<open>a\<close>, where the remainder is empty, and returns a map
  without a value for \<open>w\<close>.
\<close>

theorem Match_empty_remainder_counterexample:
  "TryToParse litRegexp ''a{w}'' = Inr tmpl_aw \<and>
   Match litRegexp tmpl_aw ''a'' = Inr (True, Some Map.empty)"
proof -
  have "TryToParse litRegexp ''a{w}'' = Inr tmpl_aw" by code_simp
  moreover have "Match litRegexp tmpl_aw ''a'' = Inr (True, Some Map.empty)"
    by (simp add: Match_def tmpl_aw_def IsStatic_def IsWildcard_def staticSliceOf_def
        dynamicSliceOf_def HasPrefix_def Let_def)
  ultimately show ?thesis by simp
qed


section \<open>The value check of \<open>Apply\<close>\<close>

text \<open>
  Claim C3 at the template \<open>{x:ab}b\<close>, whose pattern slice holds the regexp \<open>^ab\<close>, and the
  value \<open>abzz\<close> for \<open>x\<close>. The regexp matches the proper prefix \<open>ab\<close> of the value only, and
  \<open>Apply\<close> accepts the value: the guard
  \<open>idxs == nil || (idxs[0] != 0 && idxs[1] != len(v))\<close> refuses a match only when it
  touches neither end of the value. The string \<open>abzzb\<close> that \<open>Apply\<close> returns is not
  matched by the template it was made from. The template \<open>{x:ab}\<close>, whose regexp is
  \<open>^ab$\<close>, refuses the same value.
\<close>

theorem Apply_accepts_partial_match:
  "TryToParse litRegexp ''{x:ab}b'' = Inr tmpl_xb
   \<and> FindStringIndex litRegexp ''^ab'' ''abzz'' = Some (0, 2)
   \<and> Apply litRegexp tmpl_xb (Map.empty(''x'' \<mapsto> ''abzz'')) False = Inr ''abzzb''
   \<and> Match litRegexp tmpl_xb ''abzzb'' = Inr (False, None)
   \<and> TryToParse litRegexp ''{x:ab}'' = Inr tmpl_x
   \<and> FindStringIndex litRegexp ''^ab$'' ''abzz'' = None
   \<and> Apply litRegexp tmpl_x (Map.empty(''x'' \<mapsto> ''abzz'')) False = Inl ErrInvalidValue"
proof -
  have "TryToParse litRegexp ''{x:ab}b'' = Inr tmpl_xb" by code_simp
  moreover have "FindStringIndex litRegexp ''^ab'' ''abzz'' = Some (0, 2)" by code_simp
  moreover have "Apply litRegexp tmpl_xb (Map.empty(''x'' \<mapsto> ''abzz'')) False = Inr ''abzzb''"
    by code_simp
  moreover have "Match litRegexp tmpl_xb ''abzzb'' = Inr (False, None)"
  proof -
    have "case Match litRegexp tmpl_xb ''abzzb'' of Inl e \<Rightarrow> False
          | Inr (b, m) \<Rightarrow> \<not> b \<and> Option.is_none m"
      by code_simp
    then show ?thesis by (auto simp: Option.is_none_def split: sum.splits)
  qed
  moreover have "TryToParse litRegexp ''{x:ab}'' = Inr tmpl_x" by code_simp
  moreover have "FindStringIndex litRegexp ''^ab$'' ''abzz'' = None" by code_simp
  moreover have "Apply litRegexp tmpl_x (Map.empty(''x'' \<mapsto> ''abzz'')) False = Inl ErrInvalidValue"
    by code_simp
  ultimately show ?thesis by simp
qed

section \<open>Properties of \<open>SimilarityWith\<close>\<close>

text \<open>
  Claim C8 at the templates of \<open>{x:ab}b\<close> and \<open>a{x:ab}\<close>, which have the same number of
  slices and no wildcard. Comparing the first with the second reads \<open>.re\<close> through the nil
  value pattern of the static slice \<open>a\<close> and panics; comparing the second with the first
  returns \<open>Different\<close>.
\<close>

theorem SimilarityWith_nil_dereference:
  "TryToParse litRegexp ''{x:ab}b'' = Inr tmpl_xb
   \<and> TryToParse litRegexp ''a{x:ab}'' = Inr tmpl_ax
   \<and> SimilarityWith tmpl_xb (Some tmpl_ax) = Inl Panic
   \<and> SimilarityWith tmpl_ax (Some tmpl_xb) = Inr Different"
proof -
  have "TryToParse litRegexp ''{x:ab}b'' = Inr tmpl_xb" by code_simp
  moreover have "TryToParse litRegexp ''a{x:ab}'' = Inr tmpl_ax" by code_simp
  moreover have "SimilarityWith tmpl_xb (Some tmpl_ax) = Inl Panic" by code_simp
  moreover have "SimilarityWith tmpl_ax (Some tmpl_xb) = Inr Different" by code_simp
  ultimately show ?thesis by simp
qed

section \<open>Re-anchoring of the recorded value patterns\<close>


lemma map_of_vpUpdate: "map_of (vpUpdate k v m) = (map_of m)(k \<mapsto> v)"
  by (induction m) (auto simp: fun_eq_iff)

lemma keys_vpUpdate: "fst ` set (vpUpdate k v m) = insert k (fst ` set m)"
  by (induction m) force+

lemma reanchorLoop_map_of:
  assumes "reanchorLoop rx es m = Inr m'"
    and "distinct (map fst es)"
    and "\<forall>(k, vp) \<in> set es. vp_name vp = k"
  shows "map_of m' k = (case map_of es k of None \<Rightarrow> map_of m k | Some vp \<Rightarrow> Some (reanchored vp))"
  using assms
proof (induction es arbitrary: m)
  case Nil
  then show ?case by simp
next
  case (Cons e es)
  obtain k0 vp0 where e: "e = (k0, vp0)" by (cases e)
  from Cons.prems(1) e obtain c p1 where
    re: "vp_re vp0 = Some (c # p1)" and
    rest: "reanchorLoop rx es (vpUpdate (vp_name vp0)
              \<lparr>vp_name = vp_name vp0, vp_re = Some (p1 @ [CHR ''$''])\<rparr> m) = Inr m'"
    by (auto simp: Let_def split: option.splits list.splits if_splits)
  have n: "vp_name vp0 = k0" using Cons.prems(3) e by simp
  have d: "distinct (map fst es)" "k0 \<notin> fst ` set es" using Cons.prems(2) e by auto
  have a: "\<forall>(k, vp) \<in> set es. vp_name vp = k" using Cons.prems(3) by simp
  have r0: "reanchored vp0 = \<lparr>vp_name = k0, vp_re = Some (p1 @ [CHR ''$''])\<rparr>"
    by (simp add: reanchored_def re n)
  from Cons.IH[OF rest d(1) a]
  have ih: "map_of m' k = (case map_of es k of
        None \<Rightarrow> map_of (vpUpdate k0 (reanchored vp0) m) k
      | Some vp \<Rightarrow> Some (reanchored vp))"
    by (simp add: n r0 cong: option.case_cong)
  show ?case
  proof (cases "k = k0")
    case True
    then have "map_of es k = None" using d(2) by (simp add: map_of_eq_None_iff)
    then show ?thesis using ih True e by (simp add: map_of_vpUpdate)
  next
    case False
    then show ?thesis using ih e by (simp add: map_of_vpUpdate split: option.splits)
  qed
qed


lemma map_fst_vpUpdate: "k \<in> fst ` set m \<Longrightarrow> map fst (vpUpdate k v m) = map fst m"
proof (induction m)
  case Nil
  then show ?case by simp
next
  case (Cons e m)
  obtain k' v' where e: "e = (k', v')" by (cases e)
  show ?case
  proof (cases "k' = k")
    case True
    then show ?thesis using e by simp
  next
    case False
    then have "k \<in> fst ` set m" using Cons.prems e by auto
    from Cons.IH[OF this] show ?thesis using e False by simp
  qed
qed

lemma reanchorLoop_keys:
  assumes "reanchorLoop rx es m = Inr m'"
    and "\<forall>(k, vp) \<in> set es. vp_name vp = k"
    and "fst ` set es \<subseteq> fst ` set m"
  shows "map fst m' = map fst m"
  using assms
proof (induction es arbitrary: m)
  case Nil
  then show ?case by simp
next
  case (Cons e es)
  obtain k0 vp0 where e: "e = (k0, vp0)" by (cases e)
  from Cons.prems(1) e obtain c p1 where
    rest: "reanchorLoop rx es (vpUpdate (vp_name vp0)
              \<lparr>vp_name = vp_name vp0, vp_re = Some (p1 @ [CHR ''$''])\<rparr> m) = Inr m'"
    by (auto simp: Let_def split: option.splits list.splits if_splits)
  have n: "vp_name vp0 = k0" using Cons.prems(2) e by simp
  have k0: "k0 \<in> fst ` set m" using Cons.prems(3) e by auto
  let ?m1 = "vpUpdate (vp_name vp0) \<lparr>vp_name = vp_name vp0, vp_re = Some (p1 @ [CHR ''$''])\<rparr> m"
  have m1: "map fst ?m1 = map fst m" using map_fst_vpUpdate[OF k0] n by simp
  then have "fst ` set ?m1 = fst ` set m" by (metis list.set_map)
  then have sub: "fst ` set es \<subseteq> fst ` set ?m1" using Cons.prems(3) by auto
  have a: "\<forall>(k, vp) \<in> set es. vp_name vp = k" using Cons.prems(2) by simp
  from Cons.IH[OF rest a sub] m1 show ?case by simp
qed

lemma startsWithCaret_iff: "startsWithCaret vp \<longleftrightarrow> (\<exists>x. vp_re vp = Some (CHR ''^'' # x))"
  by (auto simp: startsWithCaret_def split: option.splits list.splits)

lemma endsWithDollar_iff: "endsWithDollar vp \<longleftrightarrow> (\<exists>x. vp_re vp = Some (x @ [CHR ''$'']))"
proof
  assume "endsWithDollar vp"
  then obtain p where p: "vp_re vp = Some p" "p \<noteq> []" "last p = CHR ''$''"
    by (auto simp: endsWithDollar_def split: option.splits)
  then have "p = butlast p @ [CHR ''$'']" by (metis append_butlast_last_id)
  then show "\<exists>x. vp_re vp = Some (x @ [CHR ''$''])" using p(1) by metis
next
  assume "\<exists>x. vp_re vp = Some (x @ [CHR ''$''])"
  then show "endsWithDollar vp" by (auto simp: endsWithDollar_def)
qed

lemma startAnchored_entry:
  assumes "startAnchored vps" and "map_of vps k = Some vp"
  shows "vp_name vp = k \<and> (\<exists>x. vp_re vp = Some (CHR ''^'' # x))"
proof -
  have "(k, vp) \<in> set vps" using assms(2) by (rule map_of_SomeD)
  then have "vp_name vp = k \<and> startsWithCaret vp"
    using assms(1) by (auto simp: startAnchored_def list_all_iff)
  then show ?thesis by (simp add: startsWithCaret_iff)
qed

lemma reanchored_start:
  "vp_re vp = Some (CHR ''^'' # x) \<Longrightarrow> reanchored vp = \<lparr>vp_name = vp_name vp, vp_re = Some (x @ [CHR ''$''])\<rparr>"
  by (simp add: reanchored_def)

lemma parseInv_static:
  "parseInv tss wci vps \<Longrightarrow> parseInv (tss @ [staticSliceOf s]) wci vps"
  by (auto simp: parseInv_def staticSliceOf_def nth_append)

lemma parseInv_init: "parseInv [] (-1) []"
  by (simp add: parseInv_def startAnchored_def)

lemma map_fst_vpUpdate_new:
  "k \<notin> fst ` set m \<Longrightarrow> map fst (vpUpdate k v m) = map fst m @ [k]"
  by (induction m) auto

lemma set_vpUpdate_new:
  "k \<notin> fst ` set m \<Longrightarrow> set (vpUpdate k v m) = insert (k, v) (set m)"
  by (induction m) auto

lemma anchored_name:
  assumes "startAnchored vps \<or> endAnchored vps" and "map_of vps k = Some vp"
  shows "vp_name vp = k"
proof -
  have "(k, vp) \<in> set vps" using assms(2) by (rule map_of_SomeD)
  then show ?thesis using assms(1) by (auto simp: startAnchored_def endAnchored_def list_all_iff)
qed

lemma parseInv_anchored: "parseInv tss wci vps \<Longrightarrow> startAnchored vps \<or> endAnchored vps"
  by (auto simp: parseInv_def split: if_splits)

lemma parseInv_reuse:
  assumes "parseInv tss wci vps" and "map_of vps vName = Some vp"
  shows "parseInv (tss @ [dynamicSliceOf vp]) wci vps"
proof -
  have n: "vp_name vp = vName" using anchored_name[OF parseInv_anchored[OF assms(1)] assms(2)] .
  then have m: "map_of vps (vp_name vp) = Some vp" using assms(2) by simp
  show ?thesis using assms(1) m
    by (auto simp: parseInv_def dynamicSliceOf_def nth_append)
qed

lemma startAnchored_new:
  assumes "startAnchored vps" and "map_of vps k = None"
  shows "startAnchored (vpUpdate k \<lparr>vp_name = k, vp_re = Some (CHR ''^'' # p)\<rparr> vps)"
proof -
  have k: "k \<notin> fst ` set vps" using assms(2) by (simp add: map_of_eq_None_iff)
  show ?thesis using assms(1) k
    by (auto simp: startAnchored_def list_all_iff map_fst_vpUpdate_new set_vpUpdate_new
        startsWithCaret_def)
qed

lemma endAnchored_new:
  assumes "endAnchored vps" and "map_of vps k = None"
  shows "endAnchored (vpUpdate k \<lparr>vp_name = k, vp_re = Some (p @ [CHR ''$''])\<rparr> vps)"
proof -
  have k: "k \<notin> fst ` set vps" using assms(2) by (simp add: map_of_eq_None_iff)
  show ?thesis using assms(1) k
    by (auto simp: endAnchored_def list_all_iff map_fst_vpUpdate_new set_vpUpdate_new
        endsWithDollar_def)
qed

lemma parseInv_new:
  assumes i: "parseInv tss wci vps" and k: "map_of vps vName = None"
    and v: "vp = \<lparr>vp_name = vName, vp_re = Some (if wci \<ge> 0 then p @ [CHR ''$''] else CHR ''^'' # p)\<rparr>"
  shows "parseInv (tss @ [dynamicSliceOf vp]) wci (vpUpdate vName vp vps)"
proof (cases "wci < 0")
  case True
  then have v': "vp = \<lparr>vp_name = vName, vp_re = Some (CHR ''^'' # p)\<rparr>" using v by simp
  have s: "startAnchored vps" using i True by (simp add: parseInv_def)
  have a: "startAnchored (vpUpdate vName vp vps)" unfolding v' by (rule startAnchored_new[OF s k])
  have "map_of (vpUpdate vName vp vps) (vp_name vq) = Some vq"
    if "map_of vps (vp_name vq) = Some vq" for vq
    using that k by (auto simp: map_of_vpUpdate)
  moreover have "map_of (vpUpdate vName vp vps) (vp_name vp) = Some vp"
    by (simp add: map_of_vpUpdate v')
  ultimately show ?thesis using i True a
    by (auto simp: parseInv_def dynamicSliceOf_def)
next
  case False
  then have v': "vp = \<lparr>vp_name = vName, vp_re = Some (p @ [CHR ''$''])\<rparr>" using v by simp
  have s: "endAnchored vps" using i False by (simp add: parseInv_def)
  have a: "endAnchored (vpUpdate vName vp vps)" unfolding v' by (rule endAnchored_new[OF s k])
  have o: "map_of (vpUpdate vName vp vps) n = Some vq"
    if "map_of vps n = Some vq" for vq n
    using that k by (auto simp: map_of_vpUpdate)
  have w: "map_of (vpUpdate vName vp vps) (vp_name vp) = Some vp"
    by (simp add: map_of_vpUpdate v')
  show ?thesis using i False a o w
    by (auto simp: parseInv_def dynamicSliceOf_def nth_append)
qed

lemma parseInv_wildcard:
  assumes i: "parseInv tss wci vps" and w: "wci < 0"
    and r: "reanchorLoop rx vps vps = Inr vps'"
  shows "parseInv (tss @ [dynamicSliceOf \<lparr>vp_name = vName, vp_re = None\<rparr>]) (int (length tss)) vps'"
proof -
  have s: "startAnchored vps"
    and t: "\<forall>slc \<in> set tss. \<forall>vp. valuePattern slc = Some vp \<longrightarrow> map_of vps (vp_name vp) = Some vp"
    using i w by (auto simp: parseInv_def)
  have d: "distinct (map fst vps)"
    and n: "\<forall>(k, vp) \<in> set vps. vp_name vp = k"
    using s by (auto simp: startAnchored_def list_all_iff)
  have keys: "map fst vps' = map fst vps"
    using reanchorLoop_keys[OF r n] by simp
  have m: "map_of vps' k =
      (case map_of vps k of None \<Rightarrow> map_of vps k
       | Some vp \<Rightarrow> Some (reanchored vp))" for k
    using reanchorLoop_map_of[OF r d n] .
  have e: "endAnchored vps'"
  proof -
    have d': "distinct (map fst vps')" using keys d by simp
    have "vp_name vp = k \<and> endsWithDollar vp"
      if "(k, vp) \<in> set vps'" for k vp
    proof -
      have s': "map_of vps' k = Some vp" using that d' by simp
      then obtain vp0 where v0: "map_of vps k = Some vp0" "vp = reanchored vp0"
        using m[of k] by (auto split: option.splits)
      from startAnchored_entry[OF s v0(1)] obtain x where
        "vp_name vp0 = k" "vp_re vp0 = Some (CHR ''^'' # x)" by blast
      then show ?thesis using v0(2) by (simp add: reanchored_def endsWithDollar_def)
    qed
    then show ?thesis using d' by (auto simp: endAnchored_def list_all_iff)
  qed
  have l: "startsWithCaret vp \<and> map_of vps' (vp_name vp) = Some (reanchored vp)"
    if "slc \<in> set tss" "valuePattern slc = Some vp" for slc vp
  proof -
    have a: "map_of vps (vp_name vp) = Some vp" using t that by blast
    from startAnchored_entry[OF s a] have "startsWithCaret vp" by (simp add: startsWithCaret_iff)
    moreover have "map_of vps' (vp_name vp) = Some (reanchored vp)" using m[of "vp_name vp"] a by simp
    ultimately show ?thesis by simp
  qed
  show ?thesis using e l by (auto simp: parseInv_def)
qed

lemma appendDynamicSliceTo_inv:
  assumes a: "appendDynamicSliceTo rx tss vName pattern vps wci = Inr (tss', wci', vps')"
    and i: "parseInv tss wci vps"
  shows "parseInv tss' wci' vps'"
proof (cases "map_of vps vName")
  case (Some vp)
  then have "tss' = tss @ [dynamicSliceOf vp]" "wci' = wci" "vps' = vps"
    using a by (auto simp: appendDynamicSliceTo_def Let_def split: if_splits option.splits)
  then show ?thesis using parseInv_reuse[OF i Some] by simp
next
  case None
  show ?thesis
  proof (cases "pattern = []")
    case True
    then have w: "wci < 0" using a None
      by (auto simp: appendDynamicSliceTo_def split: if_splits option.splits)
    then have r: "reanchorLoop rx vps vps = Inr vps'"
      and "wci' = int (length tss)"
      and "tss' = tss @ [dynamicSliceOf \<lparr>vp_name = vName, vp_re = None\<rparr>]"
      using a None True
      by (auto simp: appendDynamicSliceTo_def split: if_splits option.splits sum.splits)
    then show ?thesis using parseInv_wildcard[OF i w r] by simp
  next
    case False
    define vp where "vp = \<lparr>vp_name = vName,
        vp_re = Some (if wci \<ge> 0 then pattern @ [CHR ''$''] else CHR ''^'' # pattern)\<rparr>"
    have "tss' = tss @ [dynamicSliceOf vp]" "wci' = wci" "vps' = vpUpdate vName vp vps"
      using a None False
      by (auto simp: appendDynamicSliceTo_def Let_def vp_def split: if_splits)
    then show ?thesis using parseInv_new[OF i None vp_def] by simp
  qed
qed

lemma parseLoop_inv:
  "parseLoop rx s tss vps wci = Inr (tss', wci', vps') \<Longrightarrow> parseInv tss wci vps
   \<Longrightarrow> parseInv tss' wci' vps'"
proof (induction rx s tss vps wci rule: parseLoop.induct)
  case (1 rx s tss vps wci)
  note u = parseLoop.simps[of rx s tss vps wci]
  have e: "(if s = [] then Inr (tss, wci, vps)
      else
        case staticSlice s of
          Inl e \<Rightarrow> Inl e
        | Inr (sstr, tmplStrSlc1) \<Rightarrow>
            let tss1 = (if sstr \<noteq> [] then tss @ [staticSliceOf sstr] else tss) in
              if tmplStrSlc1 = [] then Inr (tss1, wci, vps)
              else
                case dynamicSlice tmplStrSlc1 of
                  Inl e \<Rightarrow> Inl e
                | Inr (vName, pattern, tmplStrSlc2) \<Rightarrow>
                    (case appendDynamicSliceTo rx tss1 vName pattern vps wci of
                       Inl e \<Rightarrow> Inl e
                     | Inr (tss2, wildcardIdx2, valuePatterns2) \<Rightarrow>
                         parseLoop rx tmplStrSlc2 tss2 valuePatterns2 wildcardIdx2)) = Inr (tss', wci', vps')"
    using "1.prems"(1) by (subst (asm) u)
  show ?case
  proof (cases "s = []")
    case True
    then show ?thesis using e "1.prems"(2) by (simp del: parseLoop.simps)
  next
    case False
    from e False obtain sstr s1 where ss: "staticSlice s = Inr (sstr, s1)"
      by (auto simp del: parseLoop.simps split: sum.splits)
    define tss1 where "tss1 = (if sstr \<noteq> [] then tss @ [staticSliceOf sstr] else tss)"
    have i1: "parseInv tss1 wci vps"
      using "1.prems"(2) by (simp add: tss1_def parseInv_static)
    show ?thesis
    proof (cases "s1 = []")
      case True
      then have "tss' = tss1" "wci' = wci" "vps' = vps"
        using e False ss by (auto simp del: parseLoop.simps simp: tss1_def Let_def)
      then show ?thesis using i1 by simp
    next
      case s1: False
      from e False ss s1 obtain vName pattern s2 where
        ds: "dynamicSlice s1 = Inr (vName, pattern, s2)"
        by (auto simp del: parseLoop.simps simp: Let_def split: sum.splits)
      from e False ss s1 ds obtain tss2 wci2 vps2 where
        ap: "appendDynamicSliceTo rx tss1 vName pattern vps wci = Inr (tss2, wci2, vps2)"
        and pl: "parseLoop rx s2 tss2 vps2 wci2 = Inr (tss', wci', vps')"
        by (auto simp del: parseLoop.simps simp: Let_def tss1_def split: sum.splits)
      have i2: "parseInv tss2 wci2 vps2" by (rule appendDynamicSliceTo_inv[OF ap i1])
      show ?thesis
        by (rule "1.IH"[OF False ss refl tss1_def s1 ds refl refl ap refl refl pl i2])
    qed
  qed
qed

text \<open>
  Claim C2, as the code has it. \<open>parseLoop\<close> is the loop of \<open>parse\<close>, started with no slice,
  an empty map \<open>valuePatterns\<close> and the wildcard index \<open>-1\<close>; it ends with the slices
  \<open>tss\<close>, the index \<open>wci\<close> of the wildcard and the map \<open>vps\<close>. When a wildcard was met,
  \<open>parse\<close> returns these slices and this index, and the slice at the index is the
  wildcard slice. Every pattern slice left of the wildcard keeps the start-anchored
  value pattern \<open>^x\<close> it was given, and the map holds under its name the replacement
  \<open>x$\<close> made when the wildcard was appended. Every pattern slice right of the wildcard is
  end-anchored and is the value pattern that the map holds under its name; a name of the
  left side that is used again on the right side has there the pattern \<open>x$\<close>. Every value
  pattern of the map is end-anchored.
\<close>

theorem parseLoop_anchors:
  assumes "parseLoop rx s [] [] (-1) = Inr (tss, wci, vps)" and "0 \<le> wci"
  shows "parse rx s = Inr (tss, wci)
    \<and> nat wci < length tss
    \<and> (\<exists>n. tss ! nat wci = dynamicSliceOf \<lparr>vp_name = n, vp_re = None\<rparr>)
    \<and> (\<forall>slc \<in> set (take (nat wci) tss). \<forall>vp. valuePattern slc = Some vp \<longrightarrow>
          startsWithCaret vp \<and> map_of vps (vp_name vp) = Some (reanchored vp))
    \<and> (\<forall>slc \<in> set (drop (Suc (nat wci)) tss). \<forall>vq. valuePattern slc = Some vq \<longrightarrow>
          endsWithDollar vq \<and> map_of vps (vp_name vq) = Some vq)
    \<and> endAnchored vps"
proof -
  have i: "parseInv tss wci vps" using parseLoop_inv[OF assms(1) parseInv_init] .
  then have l: "nat wci < length tss"
    and w: "\<exists>n. tss ! nat wci = dynamicSliceOf \<lparr>vp_name = n, vp_re = None\<rparr>"
    and e: "endAnchored vps"
    and a: "\<forall>slc \<in> set (take (nat wci) tss). \<forall>vp. valuePattern slc = Some vp \<longrightarrow>
          startsWithCaret vp \<and> map_of vps (vp_name vp) = Some (reanchored vp)"
    and b: "\<forall>slc \<in> set (drop (Suc (nat wci)) tss). \<forall>vq. valuePattern slc = Some vq \<longrightarrow>
          map_of vps (vp_name vq) = Some vq"
    using assms(2) by (auto simp: parseInv_def)
  have b': "\<forall>slc \<in> set (drop (Suc (nat wci)) tss). \<forall>vq. valuePattern slc = Some vq \<longrightarrow>
          endsWithDollar vq \<and> map_of vps (vp_name vq) = Some vq"
  proof (intro ballI allI impI)
    fix slc vq assume "slc \<in> set (drop (Suc (nat wci)) tss)" "valuePattern slc = Some vq"
    then have m: "map_of vps (vp_name vq) = Some vq" using b by blast
    then have "(vp_name vq, vq) \<in> set vps" by (rule map_of_SomeD)
    then have "endsWithDollar vq" using e by (auto simp: endAnchored_def list_all_iff)
    then show "endsWithDollar vq \<and> map_of vps (vp_name vq) = Some vq" using m by simp
  qed
  have s: "s \<noteq> []"
  proof
    assume "s = []"
    then have "wci = -1" using assms(1) by (subst (asm) parseLoop.simps) simp
    then show False using assms(2) by simp
  qed
  have p: "parse rx s = Inr (tss, wci)"
  proof (cases "length tss = 1")
    case True
    then have "nat wci = 0" using l by simp
    then obtain n where "tss ! 0 = dynamicSliceOf \<lparr>vp_name = n, vp_re = None\<rparr>" using w by auto
    then show ?thesis using s assms(1) True by (simp del: parseLoop.simps add: parse_def dynamicSliceOf_def)
  next
    case False
    then show ?thesis using s assms(1) by (simp del: parseLoop.simps add: parse_def)
  qed
  show ?thesis using p l w a b' e by blast
qed

theorem parseLoop_anchors_witness:
  "parseLoop litRegexp ''{x:ab}b{w}c{y:cd}{x}'' [] [] (-1)
     = Inr ([dynamicSliceOf \<lparr>vp_name = ''x'', vp_re = Some ''^ab''\<rparr>,
             staticSliceOf ''b'',
             dynamicSliceOf \<lparr>vp_name = ''w'', vp_re = None\<rparr>,
             staticSliceOf ''c'',
             dynamicSliceOf \<lparr>vp_name = ''y'', vp_re = Some ''cd$''\<rparr>,
             dynamicSliceOf \<lparr>vp_name = ''x'', vp_re = Some ''ab$''\<rparr>], 2,
            [(''x'', \<lparr>vp_name = ''x'', vp_re = Some ''ab$''\<rparr>),
             (''y'', \<lparr>vp_name = ''y'', vp_re = Some ''cd$''\<rparr>)])
   \<and> parse litRegexp ''{x:ab}b{w}c{y:cd}{x}''
     = Inr ([dynamicSliceOf \<lparr>vp_name = ''x'', vp_re = Some ''^ab''\<rparr>,
             staticSliceOf ''b'',
             dynamicSliceOf \<lparr>vp_name = ''w'', vp_re = None\<rparr>,
             staticSliceOf ''c'',
             dynamicSliceOf \<lparr>vp_name = ''y'', vp_re = Some ''cd$''\<rparr>,
             dynamicSliceOf \<lparr>vp_name = ''x'', vp_re = Some ''ab$''\<rparr>], 2)
   \<and> startsWithCaret \<lparr>vp_name = ''x'', vp_re = Some ''^ab''\<rparr>
   \<and> reanchored \<lparr>vp_name = ''x'', vp_re = Some ''^ab''\<rparr> = \<lparr>vp_name = ''x'', vp_re = Some ''ab$''\<rparr>
   \<and> endsWithDollar \<lparr>vp_name = ''y'', vp_re = Some ''cd$''\<rparr>
   \<and> endsWithDollar \<lparr>vp_name = ''x'', vp_re = Some ''ab$''\<rparr>
   \<and> endAnchored [(''x'', \<lparr>vp_name = ''x'', vp_re = Some ''ab$''\<rparr>),
                    (''y'', \<lparr>vp_name = ''y'', vp_re = Some ''cd$''\<rparr>)]"
proof -
  let ?x = "\<lparr>vp_name = ''x'', vp_re = Some ''^ab''\<rparr>"
  let ?x' = "\<lparr>vp_name = ''x'', vp_re = Some ''ab$''\<rparr>"
  let ?y = "\<lparr>vp_name = ''y'', vp_re = Some ''cd$''\<rparr>"
  let ?tss = "[dynamicSliceOf ?x, staticSliceOf ''b'',
               dynamicSliceOf \<lparr>vp_name = ''w'', vp_re = None\<rparr>, staticSliceOf ''c'',
               dynamicSliceOf ?y, dynamicSliceOf ?x']"
  let ?vps = "[(''x'', ?x'), (''y'', ?y)]"
  have a: "parseLoop litRegexp ''{x:ab}b{w}c{y:cd}{x}'' [] [] (-1) = Inr (?tss, 2, ?vps)"
    by code_simp
  have b: "(0::int) \<le> 2" by simp
  note t = parseLoop_anchors[OF a b]
  from t have p: "parse litRegexp ''{x:ab}b{w}c{y:cd}{x}'' = Inr (?tss, 2)" by (rule conjunct1)
  from t have l: "\<forall>slc \<in> set (take (nat 2) ?tss). \<forall>vp. valuePattern slc = Some vp \<longrightarrow>
          startsWithCaret vp \<and> map_of ?vps (vp_name vp) = Some (reanchored vp)"
    by blast
  from t have r: "\<forall>slc \<in> set (drop (Suc (nat 2)) ?tss). \<forall>vq. valuePattern slc = Some vq \<longrightarrow>
          endsWithDollar vq \<and> map_of ?vps (vp_name vq) = Some vq"
    by blast
  from t have e: "endAnchored ?vps" by blast
  from l have l': "startsWithCaret ?x \<and> reanchored ?x = ?x'"
    by (simp add: dynamicSliceOf_def staticSliceOf_def)
  from r have r': "endsWithDollar ?y \<and> endsWithDollar ?x'"
    by (simp add: dynamicSliceOf_def staticSliceOf_def)
  show ?thesis using a p l' r' e by simp
qed

text \<open>
  Claim C2 as stated has every value pattern recorded before the wildcard end-anchored
  afterwards. In the template parsed from \<open>{x:ab}{w}\<close> the slice \<open>x\<close>, recorded before the
  wildcard, holds \<open>^ab\<close> after the parse; only the map of the parser holds \<open>ab$\<close>.
\<close>

theorem parse_left_slice_counterexample:
  "parse litRegexp ''{x:ab}{w}''
     = Inr ([dynamicSliceOf \<lparr>vp_name = ''x'', vp_re = Some ''^ab''\<rparr>,
             dynamicSliceOf \<lparr>vp_name = ''w'', vp_re = None\<rparr>], 1)
   \<and> TryToParse litRegexp ''{x:ab}{w}''
     = Inr \<lparr>name = [],
            slices = [dynamicSliceOf \<lparr>vp_name = ''x'', vp_re = Some ''^ab''\<rparr>,
                      dynamicSliceOf \<lparr>vp_name = ''w'', vp_re = None\<rparr>],
            wildCardIdx = 1\<rparr>
   \<and> \<not> endsWithDollar \<lparr>vp_name = ''x'', vp_re = Some ''^ab''\<rparr>
   \<and> parseLoop litRegexp ''{x:ab}{w}'' [] [] (-1)
     = Inr ([dynamicSliceOf \<lparr>vp_name = ''x'', vp_re = Some ''^ab''\<rparr>,
             dynamicSliceOf \<lparr>vp_name = ''w'', vp_re = None\<rparr>], 1,
            [(''x'', \<lparr>vp_name = ''x'', vp_re = Some ''ab$''\<rparr>)])"
proof -
  have "parse litRegexp ''{x:ab}{w}''
     = Inr ([dynamicSliceOf \<lparr>vp_name = ''x'', vp_re = Some ''^ab''\<rparr>,
             dynamicSliceOf \<lparr>vp_name = ''w'', vp_re = None\<rparr>], 1)"
    by code_simp
  moreover have "TryToParse litRegexp ''{x:ab}{w}''
     = Inr \<lparr>name = [],
            slices = [dynamicSliceOf \<lparr>vp_name = ''x'', vp_re = Some ''^ab''\<rparr>,
                      dynamicSliceOf \<lparr>vp_name = ''w'', vp_re = None\<rparr>],
            wildCardIdx = 1\<rparr>"
    by code_simp
  moreover have "\<not> endsWithDollar \<lparr>vp_name = ''x'', vp_re = Some ''^ab''\<rparr>"
    by (simp add: endsWithDollar_def)
  moreover have "parseLoop litRegexp ''{x:ab}{w}'' [] [] (-1)
     = Inr ([dynamicSliceOf \<lparr>vp_name = ''x'', vp_re = Some ''^ab''\<rparr>,
             dynamicSliceOf \<lparr>vp_name = ''w'', vp_re = None\<rparr>], 1,
            [(''x'', \<lparr>vp_name = ''x'', vp_re = Some ''ab$''\<rparr>)])"
    by code_simp
  ultimately show ?thesis by simp
qed

section \<open>Configuration compatibility\<close>

lemma has_iff_bits: "has f x \<longleftrightarrow> (\<forall>n. bit x n \<longrightarrow> bit f n)"
proof
  assume h: "has f x"
  show "\<forall>n. bit x n \<longrightarrow> bit f n"
  proof (intro allI impI)
    fix n assume b: "bit x n"
    have "bit (f AND x) n" using h b by (simp add: has_def)
    then show "bit f n" by (simp add: bit_and_iff)
  qed
next
  assume a: "\<forall>n. bit x n \<longrightarrow> bit f n"
  show "has f x"
    unfolding has_def by (rule bit_eqI) (use a in \<open>auto simp: bit_and_iff\<close>)
qed

lemma cfs_setConfigFlags:
  "configFlags (setConfigFlags st rb flag) rb' =
     (if rb' = rb then configFlags st rb OR flag else configFlags st rb')"
  by (simp add: configFlags_def setConfigFlags_def updateResponder_def setFlags_def)

lemma heap_setConfigFlags_other:
  "rb' \<noteq> rb \<Longrightarrow> heap (setConfigFlags st rb flag) rb' = heap st rb'"
  by (simp add: setConfigFlags_def updateResponder_def)

text \<open>
  Claim C6. \<open>configCompatibility\<close> on a node without the flag \<open>flagActive\<close> returns no error
  and sets the flags of the node: \<open>flagActive\<close>, \<open>flagSecure\<close> when \<open>secure\<close>,
  \<open>flagTrailingSlash\<close> when \<open>tslash\<close>, and the bits of \<open>cfs\<close> when it is given. On a node with
  the flag \<open>flagActive\<close> it leaves the state as it is and returns
  \<open>ErrConflictingSecurity\<close> exactly when the flag \<open>flagSecure\<close> of the node differs from
  \<open>secure\<close>; otherwise \<open>ErrConflictingTrailingSlash\<close> exactly when the node lacks
  \<open>flagLeniencyOnTrailingSlash\<close> and its flag \<open>flagTrailingSlash\<close> differs from \<open>tslash\<close>;
  otherwise \<open>ErrConflictingConfig\<close> exactly when \<open>cfs\<close> is given and some bit of it is not
  set in the flags of the node; otherwise no error. In both cases no other node changes.
\<close>

theorem configCompatibility_spec:
  "(\<not> has (configFlags st rb) flagActive \<longrightarrow>
      fst (configCompatibility st rb secure tslash c) = None \<and>
      configFlags (snd (configCompatibility st rb secure tslash c)) rb =
        configFlags st rb OR flagActive OR (if secure then flagSecure else 0)
          OR (if tslash then flagTrailingSlash else 0)
          OR (case c of None \<Rightarrow> 0 | Some x \<Rightarrow> x))
   \<and> (has (configFlags st rb) flagActive \<longrightarrow>
      snd (configCompatibility st rb secure tslash c) = st \<and>
      fst (configCompatibility st rb secure tslash c) =
        (if has (configFlags st rb) flagSecure \<noteq> secure then Some ErrConflictingSecurity
         else if \<not> has (configFlags st rb) flagLeniencyOnTrailingSlash \<and>
                 has (configFlags st rb) flagTrailingSlash \<noteq> tslash
           then Some ErrConflictingTrailingSlash
         else if (\<exists>x. c = Some x \<and> (\<exists>n. bit x n \<and> \<not> bit (configFlags st rb) n))
           then Some ErrConflictingConfig
         else None))
   \<and> (\<forall>rb'. rb' \<noteq> rb \<longrightarrow> heap (snd (configCompatibility st rb secure tslash c)) rb' = heap st rb')"
proof (intro conjI impI allI)
  assume a: "\<not> has (configFlags st rb) flagActive"
  show "fst (configCompatibility st rb secure tslash c) = None"
    using a by (simp add: configCompatibility_def Let_def)
  show "configFlags (snd (configCompatibility st rb secure tslash c)) rb =
        configFlags st rb OR flagActive OR (if secure then flagSecure else 0)
          OR (if tslash then flagTrailingSlash else 0)
          OR (case c of None \<Rightarrow> 0 | Some x \<Rightarrow> x)"
    using a by (simp add: configCompatibility_def Let_def cfs_setConfigFlags or.assoc
                  split: option.splits)
next
  assume a: "has (configFlags st rb) flagActive"
  show "snd (configCompatibility st rb secure tslash c) = st"
    using a by (simp add: configCompatibility_def Let_def split: option.splits)
  show "fst (configCompatibility st rb secure tslash c) =
        (if has (configFlags st rb) flagSecure \<noteq> secure then Some ErrConflictingSecurity
         else if \<not> has (configFlags st rb) flagLeniencyOnTrailingSlash \<and>
                 has (configFlags st rb) flagTrailingSlash \<noteq> tslash
           then Some ErrConflictingTrailingSlash
         else if (\<exists>x. c = Some x \<and> (\<exists>n. bit x n \<and> \<not> bit (configFlags st rb) n))
           then Some ErrConflictingConfig
         else None)"
  proof (cases c)
    case None
    then show ?thesis using a by (simp add: configCompatibility_def Let_def)
  next
    case (Some x)
    have "(\<exists>y. c = Some y \<and> (\<exists>n. bit y n \<and> \<not> bit (configFlags st rb) n))
            \<longleftrightarrow> \<not> has (configFlags st rb) x"
      using Some by (simp add: has_iff_bits)
    then show ?thesis using a Some by (simp add: configCompatibility_def Let_def)
  qed
next
  fix rb' assume "rb' \<noteq> rb"
  then show "heap (snd (configCompatibility st rb secure tslash c)) rb' = heap st rb'"
    by (simp add: configCompatibility_def Let_def heap_setConfigFlags_other split: option.splits)
qed

theorem configCompatibility_spec_witness:
  "\<not> has (configFlags exDummy 6) flagActive
   \<and> fst (configCompatibility exDummy 6 True False (Some flagSubtreeHandler)) = None
   \<and> configFlags (snd (configCompatibility exDummy 6 True False (Some flagSubtreeHandler))) 6
       = flagActive OR flagSecure OR flagSubtreeHandler
   \<and> has (configFlags exTree 1) flagActive
   \<and> snd (configCompatibility exTree 1 True False None) = exTree
   \<and> fst (configCompatibility exTree 1 True False None) = Some ErrConflictingSecurity
   \<and> (6::nat) \<noteq> 1
   \<and> heap (snd (configCompatibility exTree 1 True False None)) 6 = heap exTree 6"
proof -
  have a: "configFlags exDummy 6 = 0"
    by (simp add: configFlags_def exDummy_def newDummyResource_def exTree_def)
  have b: "configFlags exTree 1 = flagActive" "configFlags exTree (Suc 0) = flagActive"
    by (simp_all add: configFlags_def exTree_def exResource_def)
  have c: "\<not> has 0 flagActive" "has flagActive flagActive" "\<not> has flagActive flagSecure"
    by (simp_all add: has_def flagActive_def flagSecure_def)
  from configCompatibility_spec[of exDummy 6 True False "Some flagSubtreeHandler"]
       configCompatibility_spec[of exTree 1 True False None]
  show ?thesis by (simp add: a b c)
qed

section \<open>Lookup of a child resource by name\<close>

lemma firstNamed_find:
  "firstNamed st n xs = find (\<lambda>r. name (tmpl (heap st r)) = n) xs"
  by (induction xs) (auto simp: Name_def)

lemma find_app: "find P (xs @ ys) = (case find P xs of None \<Rightarrow> find P ys | Some x \<Rightarrow> Some x)"
  by (induction xs) auto

text \<open>
  Claim C10. \<open>ChildResourceNamed\<close> returns nil for the empty name. For any other name it
  returns the first resource whose template has that name in the list made of the
  wildcard resource, the pattern resources in the order of their slice, and the static
  resources (in the order in which the loop visits the map), and nil when the list has
  no such resource.
\<close>

theorem ChildResourceNamed_spec:
  "ChildResourceNamed st rb n =
     (if n = [] then None
      else find (\<lambda>r. name (tmpl (heap st r)) = n)
             ((case wildcardResource (heap st rb) of None \<Rightarrow> [] | Some w \<Rightarrow> [w]) @
              patternResources (heap st rb) @ map snd (staticResources (heap st rb))))"
  by (simp add: ChildResourceNamed_def firstNamed_find find_app Name_def split: option.splits)

text \<open>
  The lookup in \<open>exNamed\<close>: the name \<open>w\<close> is found at the wildcard child and not at the
  static child 5, the name \<open>s\<close> at the pattern child 3 and not at the static child 4, the
  name \<open>n\<close> at the pattern child 2, the name \<open>q\<close> nowhere, and the empty name nowhere
  although the child 6 has no name.
\<close>

theorem ChildResourceNamed_spec_witness:
  "ChildResourceNamed exNamed 0 ''w'' = Some 1
   \<and> ChildResourceNamed exNamed 0 ''n'' = Some 2
   \<and> ChildResourceNamed exNamed 0 ''s'' = Some 3
   \<and> ChildResourceNamed exNamed 0 ''q'' = None
   \<and> ChildResourceNamed exNamed 0 [] = None
   \<and> name (tmpl (heap exNamed 6)) = []
   \<and> ChildResourceNamed exNamed 2 ''w'' = None"
  using ChildResourceNamed_spec[of exNamed 0 "''w''"] ChildResourceNamed_spec[of exNamed 0 "''n''"]
        ChildResourceNamed_spec[of exNamed 0 "''s''"] ChildResourceNamed_spec[of exNamed 0 "''q''"]
        ChildResourceNamed_spec[of exNamed 0 "[]"] ChildResourceNamed_spec[of exNamed 2 "''w''"]
  by (simp add: exNamed_def exResource_def tmpl_w_def tmpl_pattern_def tmpl_named_def
                tmpl_static_def)

section \<open>Keeping a resource whose template is already registered\<close>

lemma heap_updateResponder [simp]:
  "heap (updateResponder st a f) x = (if x = a then f (heap st a) else heap st x)"
  by (simp add: updateResponder_def)

lemma nxt_updateResponder [simp]: "nxt (updateResponder st a f) = nxt st"
  by (simp add: updateResponder_def)














lemma clearChildResources_kids [simp]: "ChildResources (clearChildResources st rb) rb = []"
  by (simp add: clearChildResources_def ChildResources_def)












lemma indexOf_mem: "v \<in> set ps \<Longrightarrow> \<exists>i. indexOf ps v = Some i"
  by (induction ps) auto














section \<open>Registration that fails after it has changed the tree\<close>

text \<open>
  Claim C5 in \<open>exTree\<close>. The resource 3 (\<open>a\<close>, no handler, children 4 and 5) is registered
  at the resource 0, whose child 1 has the same template. \<open>RegisterResource\<close> passes the
  children of 3 to 1: the child 4 (\<open>c\<close>) is registered under 1, then the child 5 (\<open>{w}\<close>)
  collides with the child 2 of 1, both with a handler. The call returns
  \<open>ErrDuplicateResourceTemplate\<close>, and the tree has changed: the resource 4 is a child of
  the resource 1 and has it as parent, while the resource 3 still holds it as a child.
\<close>

theorem RegisterResource_error_after_move:
  "ChildResources exTree 1 = [2] \<and> ChildResources exTree 3 = [4, 5]
   \<and> parent exTree 4 = Some (ResponderParent 3)
   \<and> (\<exists>st'. RegisterResource 10 litRegexp exTree 0 (Some 3)
                = Some (Some ErrDuplicateResourceTemplate, st')
          \<and> ChildResources st' 1 = [4, 2] \<and> ChildResources st' 3 = [4, 5]
          \<and> parent st' 4 = Some (ResponderParent 1))"
proof -
  have a: "ChildResources exTree 1 = [2] \<and> ChildResources exTree 3 = [4, 5]
           \<and> parent exTree 4 = Some (ResponderParent 3)"
    by code_simp
  have "map_option (\<lambda>p. (fst p, ChildResources (snd p) 1, ChildResources (snd p) 3,
                          parent (snd p) 4))
          (RegisterResource 10 litRegexp exTree 0 (Some 3))
        = Some (Some ErrDuplicateResourceTemplate, [4, 2], [4, 5], Some (ResponderParent 1))"
    by code_simp
  then have "\<exists>st'. RegisterResource 10 litRegexp exTree 0 (Some 3)
                = Some (Some ErrDuplicateResourceTemplate, st')
          \<and> ChildResources st' 1 = [4, 2] \<and> ChildResources st' 3 = [4, 5]
          \<and> parent st' 4 = Some (ResponderParent 1)"
    by auto
  then show ?thesis using a by simp
qed

section \<open>Parsing the string of a template\<close>

text \<open>
  Claim C7 at the template parsed from \<open>{x:ab}{w}{x}\<close>. Its slices hold the regexps \<open>^ab\<close>
  and \<open>ab$\<close>. \<open>Content\<close> writes the source of the regexp of the first slice, with the
  anchor that the parser added, so that \<open>String\<close> returns \<open>{x:^ab}{w}{x}\<close>. The parser
  anchors this pattern again: the template parsed from the string holds \<open>^^ab\<close> and
  \<open>^ab$\<close>. The two templates differ in what they match: the first one matches \<open>abqab\<close>,
  with \<open>ab\<close> for \<open>x\<close> and \<open>q\<close> for \<open>w\<close>, and the second one does not.
\<close>

theorem String_reparse_differs:
  "TryToParse litRegexp ''{x:ab}{w}{x}'' = Inr tmpl_xwx
   \<and> String tmpl_xwx = Inr ''{x:^ab}{w}{x}''
   \<and> TryToParse litRegexp ''{x:^ab}{w}{x}'' = Inr tmpl_xwx_again
   \<and> tmpl_xwx_again \<noteq> tmpl_xwx
   \<and> (\<exists>m. Match litRegexp tmpl_xwx ''abqab'' = Inr (True, Some m)
          \<and> m ''x'' = Some ''ab'' \<and> m ''w'' = Some ''q'')
   \<and> Match litRegexp tmpl_xwx_again ''abqab'' = Inr (False, None)"
proof -
  have "TryToParse litRegexp ''{x:ab}{w}{x}'' = Inr tmpl_xwx" by code_simp
  moreover have "String tmpl_xwx = Inr ''{x:^ab}{w}{x}''" by code_simp
  moreover have "TryToParse litRegexp ''{x:^ab}{w}{x}'' = Inr tmpl_xwx_again" by code_simp
  moreover have "tmpl_xwx_again \<noteq> tmpl_xwx" by code_simp
  moreover have "\<exists>m. Match litRegexp tmpl_xwx ''abqab'' = Inr (True, Some m)
          \<and> m ''x'' = Some ''ab'' \<and> m ''w'' = Some ''q''"
  proof -
    have "case Match litRegexp tmpl_xwx ''abqab'' of Inl e \<Rightarrow> False
          | Inr (b, m) \<Rightarrow> b \<and> (case m of None \<Rightarrow> False
              | Some f \<Rightarrow> f ''x'' = Some ''ab'' \<and> f ''w'' = Some ''q'')"
      by code_simp
    then show ?thesis by (auto split: sum.splits option.splits)
  qed
  moreover have "Match litRegexp tmpl_xwx_again ''abqab'' = Inr (False, None)"
  proof -
    have "case Match litRegexp tmpl_xwx_again ''abqab'' of Inl e \<Rightarrow> False
          | Inr (b, m) \<Rightarrow> \<not> b \<and> Option.is_none m"
      by code_simp
    then show ?thesis by (auto simp: Option.is_none_def split: sum.splits)
  qed
  ultimately show ?thesis by simp
qed

end
